theory Spec2Isabelle
  imports Complex_Main "HOL-Library.Char_ord" "HOL-Library.List_Lexorder" "HOL-Library.Log_Nat"
begin

section \<open>School fee manager: fee resolution, payment aggregation, status\<close>

text \<open>
  The definitions below embed the arithmetic of the master-ledger page
  (\<^verbatim>\<open>fetchStudentsAndDetails\<close>, \<^verbatim>\<open>getDynamicStatus\<close>, \<^verbatim>\<open>handleExport\<close>),
  the student-registration page (\<^verbatim>\<open>fetchStudents\<close>), the dashboard
  (\<^verbatim>\<open>handleShowDetail\<close>) and the record-payment page (\<^verbatim>\<open>handleSubmitPayment\<close>).

  Conventions of the embedding:
  \<^item> a JavaScript \<^verbatim>\<open>number\<close> is a finite IEEE-754 double, held as the rational
    (\<^typ>\<open>rat\<close>) it stands for. Comparisons are exact; \<^verbatim>\<open>+\<close> and \<^verbatim>\<open>-\<close> round their exact
    result to the nearest double, a tie going to the even significand. \<^verbatim>\<open>NaN\<close>, the
    infinities, a sum beyond the largest double (about \<open>1.8e308\<close>) and the sign of zero
    are outside the model;
  \<^item> a value that may be \<^verbatim>\<open>null\<close> or \<^verbatim>\<open>undefined\<close> is an \<^typ>\<open>'a option\<close>;
  \<^item> a string is a \<^typ>\<open>string\<close>, ordered lexicographically by character code, which is
    what \<^verbatim>\<open><=\<close> does on two JavaScript strings.
\<close>

subsection \<open>Double-precision arithmetic\<close>

text \<open>
  A finite double is \<open>m * 2 ^ q\<close> with an integer \<open>m\<close> of magnitude below \<open>2 ^ 53\<close> and
  \<open>q \<ge> - 1074\<close>. Everything below is scaled by \<open>2 ^ 1074 = two_emin * 2 ^ 52\<close>, so that only
  powers with natural exponents occur.
\<close>

definition two_emin :: rat where
  "two_emin = 2 ^ 1022"

text \<open>Rounding to the nearest integer, a tie going to the even one.\<close>

definition round_even :: "rat \<Rightarrow> int" where
  "round_even r =
     (let f = \<lfloor>r\<rfloor>; d = r - of_int f
      in if d < 1 / 2 then f
         else if 1 / 2 < d then f + 1
         else if even f then f else f + 1)"

text \<open>
  The doubles around \<open>x\<close> are \<open>2 ^ dbl_k x / 2 ^ 1074\<close> apart: \<open>dbl_k x\<close> is \<open>0\<close> below the
  smallest normal number \<open>1 / 2 ^ 1022\<close> and grows by one with each binade above it.
\<close>

definition dbl_k :: "rat \<Rightarrow> nat" where
  "dbl_k x = nat (bitlen \<lfloor>\<bar>x\<bar> * two_emin\<rfloor> - 1)"

text \<open>The magnitude of \<open>x\<close> counted in units of that spacing.\<close>

definition dbl_ratio :: "rat \<Rightarrow> rat" where
  "dbl_ratio x = \<bar>x\<bar> * two_emin * 2 ^ 52 / 2 ^ dbl_k x"

definition fl_mag :: "rat \<Rightarrow> rat" where
  "fl_mag x = of_int (round_even (dbl_ratio x)) * 2 ^ dbl_k x / (two_emin * 2 ^ 52)"

text \<open>The double nearest to \<open>x\<close>.\<close>

definition fl :: "rat \<Rightarrow> rat" where
  "fl x = (if x < 0 then - fl_mag x else fl_mag x)"

text \<open>\<^verbatim>\<open>x + y\<close> and \<^verbatim>\<open>x - y\<close> on numbers.\<close>

definition js_add :: "rat \<Rightarrow> rat \<Rightarrow> rat" where
  "js_add x y = fl (x + y)"

definition js_sub :: "rat \<Rightarrow> rat \<Rightarrow> rat" where
  "js_sub x y = fl (x - y)"

subsection \<open>JavaScript operators on nullable values\<close>

text \<open>\<^verbatim>\<open>x || d\<close> on a number: \<^verbatim>\<open>0\<close> is falsy, every other number is kept.\<close>

definition or_num :: "rat \<Rightarrow> rat \<Rightarrow> rat" where
  "or_num x d = (if x = 0 then d else x)"

text \<open>\<^verbatim>\<open>x || d\<close> on a nullable number: \<^verbatim>\<open>null\<close>, \<^verbatim>\<open>undefined\<close> and \<^verbatim>\<open>0\<close> are falsy.\<close>

definition or_opt_num :: "rat option \<Rightarrow> rat \<Rightarrow> rat" where
  "or_opt_num x d = (case x of None \<Rightarrow> d | Some v \<Rightarrow> or_num v d)"

text \<open>Truthiness of a nullable string: \<^verbatim>\<open>null\<close> and the empty string are falsy.\<close>

definition truthy_str :: "string option \<Rightarrow> bool" where
  "truthy_str x = (case x of None \<Rightarrow> False | Some s \<Rightarrow> s \<noteq> [])"

subsection \<open>Rows fetched from the store\<close>

record Payment =
  date :: string
  amount_paid :: rat
  mode_of_payment :: string
  receipt_number :: string

record FeeTypeRow =
  ft_id :: string
  ft_name :: string
  default_amount :: "rat option"
  scheduled_date :: "string option"

record StudentFeeType =
  assigned_amount :: "rat option"
  discount :: "rat option"
  discount_description :: "string option"
  net_payable_amount :: "rat option"
  fee_type :: "FeeTypeRow option"

text \<open>
  A detail line of the ledger. Its \<^verbatim>\<open>id\<close>, which falls back to a random key, plays no
  part in any amount and is left out.
\<close>

record FeeTypeDetail =
  fd_name :: string
  fd_assigned_amount :: rat
  fd_discount :: rat
  net_payable :: rat
  fd_scheduled_date :: "string option"

text \<open>The part of a fetched student row that the computations read.\<close>

record StudentRow =
  payments :: "Payment list option"
  student_fee_types :: "StudentFeeType list option"

record StudentWithPayments = StudentRow +
  totalPaid :: "rat option"
  calculated_total_assigned_fees :: rat
  calculated_due_fees_total :: rat
  all_fee_details_for_display :: "FeeTypeDetail list"

datatype FeeView = FeeView_total | FeeView_due

datatype DynamicStatus = Paid | Partially_paid | Unpaid | No_fees_due

subsection \<open>Payment Aggregator\<close>

text \<open>
  Master ledger:
  \<^verbatim>\<open>s.payments?.reduce((sum, p) => sum + p.amount_paid, 0) || 0\<close>.
  The dashboard's \<^verbatim>\<open>handleShowDetail\<close> computes the total paid of a student with the
  same expression.
\<close>

definition reduce_payments :: "Payment list \<Rightarrow> rat" where
  "reduce_payments ps = foldl (\<lambda>sum p. js_add sum (amount_paid p)) 0 ps"

definition totalPaid_of :: "Payment list option \<Rightarrow> rat" where
  "totalPaid_of ps = (case ps of None \<Rightarrow> 0 | Some l \<Rightarrow> or_num (reduce_payments l) 0)"

subsection \<open>Fee Assignment Resolver\<close>

text \<open>\<^verbatim>\<open>new Date().toISOString().split('T')[0]\<close>: the text before the first \<^verbatim>\<open>T\<close>.\<close>

definition todayISO_of :: "string \<Rightarrow> string" where
  "todayISO_of nowISO = takeWhile (\<lambda>c. c \<noteq> CHR ''T'') nowISO"

text \<open>\<^verbatim>\<open>sft.assigned_amount ?? feeTypeInfo?.default_amount ?? 0\<close>\<close>

definition assignedAmount :: "StudentFeeType \<Rightarrow> rat" where
  "assignedAmount sft =
     (case assigned_amount sft of
        Some a \<Rightarrow> a
      | None \<Rightarrow>
          (case fee_type sft of
             None \<Rightarrow> 0
           | Some ft \<Rightarrow> (case default_amount ft of Some d \<Rightarrow> d | None \<Rightarrow> 0)))"

text \<open>\<^verbatim>\<open>sft.discount || 0\<close>\<close>

definition discount_of :: "StudentFeeType \<Rightarrow> rat" where
  "discount_of sft = or_opt_num (discount sft) 0"

definition netPayableForThisFee :: "StudentFeeType \<Rightarrow> rat" where
  "netPayableForThisFee sft = js_sub (assignedAmount sft) (discount_of sft)"

text \<open>
  The two accumulators that the callback of \<^verbatim>\<open>student_fee_types.map\<close> updates, and
  the detail lines it returns.
\<close>

record ResolverAcc =
  total_assigned_acc :: rat
  due_acc :: rat
  details_acc :: "FeeTypeDetail list"

definition resolver_step :: "string \<Rightarrow> ResolverAcc \<Rightarrow> StudentFeeType \<Rightarrow> ResolverAcc" where
  "resolver_step todayISO acc sft =
     (let feeTypeInfo = fee_type sft;
          net = netPayableForThisFee sft;
          due' =
            (case feeTypeInfo of
               None \<Rightarrow> due_acc acc
             | Some ft \<Rightarrow>
                 (case scheduled_date ft of
                    None \<Rightarrow> js_add (due_acc acc) net
                  | Some d \<Rightarrow>
                      if d \<noteq> []
                      then (if d \<le> todayISO then js_add (due_acc acc) net else due_acc acc)
                      else js_add (due_acc acc) net));
          detail = \<lparr> fd_name = (case feeTypeInfo of
                                   None \<Rightarrow> ''Unknown Fee Type''
                                 | Some ft \<Rightarrow> if ft_name ft = [] then ''Unknown Fee Type''
                                             else ft_name ft),
                     fd_assigned_amount = assignedAmount sft,
                     fd_discount = discount_of sft,
                     net_payable = net,
                     fd_scheduled_date =
                       (case feeTypeInfo of
                          None \<Rightarrow> None
                        | Some ft \<Rightarrow> if truthy_str (scheduled_date ft)
                                    then scheduled_date ft else None) \<rparr>
      in \<lparr> total_assigned_acc = js_add (total_assigned_acc acc) net,
           due_acc = due',
           details_acc = details_acc acc @ [detail] \<rparr>)"

definition resolver_init :: ResolverAcc where
  "resolver_init = \<lparr> total_assigned_acc = 0, due_acc = 0, details_acc = [] \<rparr>"

definition resolve_fees :: "string \<Rightarrow> StudentFeeType list option \<Rightarrow> ResolverAcc" where
  "resolve_fees todayISO sfts =
     (case sfts of
        None \<Rightarrow> resolver_init
      | Some l \<Rightarrow> foldl (resolver_step todayISO) resolver_init l)"

text \<open>The callback of \<^verbatim>\<open>(data || []).map\<close> in \<^verbatim>\<open>fetchStudentsAndDetails\<close>.\<close>

definition enrichStudent :: "string \<Rightarrow> StudentRow \<Rightarrow> StudentWithPayments" where
  "enrichStudent todayISO s =
     (let r = resolve_fees todayISO (student_fee_types s)
      in \<lparr> payments = payments s,
           student_fee_types = student_fee_types s,
           totalPaid = Some (totalPaid_of (payments s)),
           calculated_total_assigned_fees = total_assigned_acc r,
           calculated_due_fees_total = due_acc r,
           all_fee_details_for_display = details_acc r \<rparr>)"

subsection \<open>Status Classifier\<close>

definition getDynamicStatus :: "FeeView \<Rightarrow> StudentWithPayments \<Rightarrow> DynamicStatus" where
  "getDynamicStatus feeViewType student =
     (let feesToConsider =
            (if feeViewType = FeeView_total
             then calculated_total_assigned_fees student
             else calculated_due_fees_total student);
          paid = or_opt_num (totalPaid student) 0
      in if feesToConsider \<le> 0.009 then (if paid > 0 then Paid else No_fees_due)
         else if paid \<ge> feesToConsider then Paid
         else if paid > 0 \<and> paid < feesToConsider then Partially_paid
         else Unpaid)"

subsection \<open>Readings of the resolver's conditions\<close>

text \<open>
  The predicate that the nested conditionals of the resolver's callback decide: the
  line is added to the due total.
\<close>

definition counted_as_due :: "string \<Rightarrow> StudentFeeType \<Rightarrow> bool" where
  "counted_as_due todayISO sft =
     (case fee_type sft of
        None \<Rightarrow> False
      | Some ft \<Rightarrow>
          (case scheduled_date ft of
             None \<Rightarrow> True
           | Some d \<Rightarrow> d = [] \<or> d \<le> todayISO))"

text \<open>
  The scheduled date of a line as the detail line shows it:
  \<^verbatim>\<open>feeTypeInfo?.scheduled_date || null\<close>.
\<close>

definition scheduled_date_of :: "StudentFeeType \<Rightarrow> string option" where
  "scheduled_date_of sft =
     (case fee_type sft of
        None \<Rightarrow> None
      | Some ft \<Rightarrow> if truthy_str (scheduled_date ft) then scheduled_date ft else None)"

subsection \<open>Student registration page: the same defaults with \<^verbatim>\<open>||\<close>\<close>







subsection \<open>Calendar dates written as \<^verbatim>\<open>YYYY-MM-DD\<close>\<close>

definition is_digit :: "char \<Rightarrow> bool" where
  "is_digit c = (CHR ''0'' \<le> c \<and> c \<le> CHR ''9'')"

definition digit_val :: "char \<Rightarrow> nat" where
  "digit_val c = of_char c - 48"

fun is_iso_date :: "string \<Rightarrow> bool" where
  "is_iso_date [y1, y2, y3, y4, h1, m1, m2, h2, d1, d2] =
     (is_digit y1 \<and> is_digit y2 \<and> is_digit y3 \<and> is_digit y4 \<and> h1 = CHR ''-'' \<and>
      is_digit m1 \<and> is_digit m2 \<and> h2 = CHR ''-'' \<and> is_digit d1 \<and> is_digit d2)"
| "is_iso_date _ = False"

text \<open>Year, month and day read off the digits.\<close>

fun calendar_of :: "string \<Rightarrow> nat \<times> nat \<times> nat" where
  "calendar_of [y1, y2, y3, y4, h1, m1, m2, h2, d1, d2] =
     (10 * (10 * (10 * digit_val y1 + digit_val y2) + digit_val y3) + digit_val y4,
      10 * digit_val m1 + digit_val m2,
      10 * digit_val d1 + digit_val d2)"
| "calendar_of _ = (0, 0, 0)"

text \<open>Not later than, on calendar dates.\<close>

fun calendar_le :: "nat \<times> nat \<times> nat \<Rightarrow> nat \<times> nat \<times> nat \<Rightarrow> bool" where
  "calendar_le (y, m, d) (y', m', d') =
     (y < y' \<or> (y = y' \<and> (m < m' \<or> (m = m' \<and> d \<le> d'))))"

subsection \<open>The specification's wording, for comparison with the code\<close>

text \<open>
  The status rule of the specification with its threshold as a parameter: at or below
  the threshold, \<open>paid\<close> when anything has been paid and \<open>no_fees_due\<close> otherwise; above
  it, \<open>paid\<close> when paid \<open>\<ge>\<close> total, \<open>partially_paid\<close> when \<open>0 < paid < total\<close>, \<open>unpaid\<close>
  when nothing has been paid.
\<close>

definition spec_status_rule :: "rat \<Rightarrow> rat \<Rightarrow> rat \<Rightarrow> DynamicStatus" where
  "spec_status_rule eps F P =
     (if F \<le> eps then (if P > 0 then Paid else No_fees_due)
      else if P \<ge> F then Paid
      else if 0 < P \<and> P < F then Partially_paid
      else Unpaid)"

text \<open>
  The specification's due rule on a line: its scheduled date is absent, or not later
  than the reference date on the calendar.
\<close>

definition spec_is_due :: "string \<Rightarrow> StudentFeeType \<Rightarrow> bool" where
  "spec_is_due today sft =
     (case scheduled_date_of sft of
        None \<Rightarrow> True
      | Some d \<Rightarrow> calendar_le (calendar_of d) (calendar_of today))"

text \<open>
  Net payable and the two totals as the specification words them: a difference and
  sums of numbers, with no rounding.
\<close>

definition spec_net_payable :: "StudentFeeType \<Rightarrow> rat" where
  "spec_net_payable sft = assignedAmount sft - discount_of sft"

definition spec_totalAssigned :: "StudentFeeType list \<Rightarrow> rat" where
  "spec_totalAssigned l = sum_list (map spec_net_payable l)"

definition spec_totalDue :: "string \<Rightarrow> StudentFeeType list \<Rightarrow> rat" where
  "spec_totalDue today l = sum_list (map spec_net_payable (filter (spec_is_due today) l))"





subsection \<open>Sums in the code's arithmetic\<close>

text \<open>
  Numbers added from left to right with \<^verbatim>\<open>+\<close>, starting from 0, as \<^verbatim>\<open>reduce\<close> and the
  accumulators of the resolver do.
\<close>

definition js_sum :: "rat list \<Rightarrow> rat" where
  "js_sum xs = foldl js_add 0 xs"

text \<open>No addition rounds when \<open>xs\<close> is added to \<open>a\<close> from left to right.\<close>

fun adds_exactly :: "rat \<Rightarrow> rat list \<Rightarrow> bool" where
  "adds_exactly a [] = True"
| "adds_exactly a (x # xs) = (fl (a + x) = a + x \<and> adds_exactly (a + x) xs)"

subsection \<open>CSV export of the master ledger\<close>

text \<open>
  A cell of a row is a string, or \<^verbatim>\<open>null\<close>/\<^verbatim>\<open>undefined\<close> (a missing roll number or
  class name). The cells of a student's row come from \<^verbatim>\<open>toFixed\<close>,
  \<^verbatim>\<open>toLocaleDateString\<close> and the row's text fields; the export takes them as the
  function \<open>row_of\<close>.
\<close>

type_synonym cell = "string option"

datatype ViewMode = View_class | View_school

definition view_str :: "ViewMode \<Rightarrow> string" where
  "view_str v = (case v of View_class \<Rightarrow> ''class'' | View_school \<Rightarrow> ''school'')"

definition feeView_str :: "FeeView \<Rightarrow> string" where
  "feeView_str v = (case v of FeeView_total \<Rightarrow> ''total'' | FeeView_due \<Rightarrow> ''due'')"

text \<open>
  \<^verbatim>\<open>(typeof c === 'string' && c.includes(',')) ? `"${c}"` : c\<close>; the double quote is
  character \<open>0x22\<close>.
\<close>

definition csv_cell :: "cell \<Rightarrow> cell" where
  "csv_cell c =
     (case c of
        None \<Rightarrow> None
      | Some s \<Rightarrow> if CHR '','' \<in> set s then Some ([CHR 0x22] @ s @ [CHR 0x22]) else Some s)"

text \<open>\<^verbatim>\<open>Array.prototype.join\<close>: \<^verbatim>\<open>null\<close> and \<^verbatim>\<open>undefined\<close> elements become empty.\<close>

definition cell_str :: "cell \<Rightarrow> string" where
  "cell_str c = (case c of None \<Rightarrow> [] | Some s \<Rightarrow> s)"

fun js_join :: "string \<Rightarrow> cell list \<Rightarrow> string" where
  "js_join sep [] = []"
| "js_join sep [c] = cell_str c"
| "js_join sep (c # cs) = cell_str c @ sep @ js_join sep cs"

text \<open>\<^verbatim>\<open>const header = [ /* ... */ ];\<close>\<close>

definition header :: "cell list" where
  "header = []"

text \<open>
  \<^verbatim>\<open>[header, ...rows].map(r => r.map(c => ...).join(',')).join('\n')\<close>; the newline is
  character \<open>0x0A\<close>.
\<close>

definition csv_lines :: "cell list list \<Rightarrow> string list" where
  "csv_lines table = map (\<lambda>r. js_join '','' (map csv_cell r)) table"

definition csv_of :: "cell list list \<Rightarrow> string" where
  "csv_of table = js_join [CHR 0x0A] (map Some (csv_lines table))"

text \<open>
  \<^verbatim>\<open>`master-ledger-${view}-${selectedClassId || 'all'}-${feeViewType}-${today}.csv`\<close>
\<close>

definition download_name :: "ViewMode \<Rightarrow> string \<Rightarrow> FeeView \<Rightarrow> string \<Rightarrow> string" where
  "download_name v selectedClassId feeViewType nowISO =
     ''master-ledger-'' @ view_str v @ ''-'' @
     (if selectedClassId = [] then ''all'' else selectedClassId) @ ''-'' @
     feeView_str feeViewType @ ''-'' @ todayISO_of nowISO @ ''.csv''"

datatype export_result =
    Export_error string
  | Export_file string string

definition handleExport ::
  "(StudentWithPayments \<Rightarrow> cell list) \<Rightarrow> ViewMode \<Rightarrow> string \<Rightarrow> FeeView \<Rightarrow> string \<Rightarrow>
   StudentWithPayments list \<Rightarrow> export_result" where
  "handleExport row_of v selectedClassId feeViewType nowISO filteredStudentsForDisplay =
     (if filteredStudentsForDisplay = [] then Export_error ''No data to export.''
      else
        let rows = map row_of filteredStudentsForDisplay;
            csv = csv_of (header # rows)
        in Export_file (download_name v selectedClassId feeViewType nowISO) csv)"

subsection \<open>Recording a payment\<close>

record StudentListItem =
  sli_id :: string
  sli_name :: string
  sli_school_id :: string

text \<open>The row handed to the store; \<open>None\<close> in \<open>pi_amount_paid\<close> is \<^verbatim>\<open>NaN\<close>.\<close>

record PaymentInsert =
  pi_student_id :: string
  pi_school_id :: string
  pi_amount_paid :: "rat option"
  pi_date :: string
  pi_mode_of_payment :: string
  pi_description :: "string option"
  pi_receipt_number :: string

datatype toast = Toast_error string | Toast_success string | Toast_loading string

text \<open>What the store answers to an insert: done, an error object, or a thrown exception.\<close>

datatype insert_reply = Inserted | Rejected string | Thrown "string option"

text \<open>
  What the page reads from its surroundings: \<^verbatim>\<open>Number\<close> and \<^verbatim>\<open>parseFloat\<close> on the
  entered text (\<open>None\<close> is \<^verbatim>\<open>NaN\<close>), \<^verbatim>\<open>String.prototype.trim\<close>, the clock, and the
  store's answer.
\<close>

record Surroundings =
  Number_of :: "string \<Rightarrow> rat option"
  parseFloat_of :: "string \<Rightarrow> rat option"
  trim_of :: "string \<Rightarrow> string"
  Date_now :: nat
  now_ISO :: string
  store_reply :: "PaymentInsert \<Rightarrow> insert_reply"

text \<open>
  The page's state together with the store's payment table and the toasts, kept as the
  list of the calls made (a later toast with the same id replaces the loading toast on
  the screen).
\<close>

record PaymentPage =
  selectedStudent :: "StudentListItem option"
  schoolId :: "string option"
  amountPaid :: string
  modeOfPayment :: string
  description :: string
  manualReceiptNumber :: string
  isSubmittingPayment :: bool
  toasts :: "toast list"
  payments_table :: "PaymentInsert list"

text \<open>The decimal digits of a number, as a template literal prints them.\<close>

definition digit_char :: "nat \<Rightarrow> char" where
  "digit_char n = ''0123456789'' ! n"

fun show_nat :: "nat \<Rightarrow> string" where
  "show_nat n =
     (if n < 10 then [digit_char n]
      else show_nat (n div 10) @ [digit_char (n mod 10)])"

text \<open>
  \<^verbatim>\<open>!amountPaid || isNaN(Number(amountPaid)) || Number(amountPaid) <= 0\<close>
\<close>

definition amount_rejected :: "Surroundings \<Rightarrow> string \<Rightarrow> bool" where
  "amount_rejected env a =
     (a = [] \<or> (case Number_of env a of None \<Rightarrow> True | Some v \<Rightarrow> v \<le> 0))"

definition handleSubmitPayment :: "Surroundings \<Rightarrow> PaymentPage \<Rightarrow> PaymentPage" where
  "handleSubmitPayment env st =
     (case selectedStudent st of
        None \<Rightarrow> st\<lparr>toasts := toasts st @ [Toast_error ''Please select a student.'']\<rparr>
      | Some stu \<Rightarrow>
          (case (if sli_id stu = [] then None
                 else if truthy_str (schoolId st) then schoolId st else None) of
             None \<Rightarrow> st\<lparr>toasts := toasts st @ [Toast_error ''School information is missing.'']\<rparr>
           | Some school \<Rightarrow>
               if amount_rejected env (amountPaid st)
               then st\<lparr>toasts := toasts st @ [Toast_error ''Enter a valid payment amount.'']\<rparr>
               else
                 let generatedReceiptNumber =
                       (if trim_of env (manualReceiptNumber st) \<noteq> []
                        then trim_of env (manualReceiptNumber st)
                        else ''R-'' @ show_nat (Date_now env));
                     paymentData =
                       \<lparr> pi_student_id = sli_id stu,
                         pi_school_id = school,
                         pi_amount_paid = parseFloat_of env (amountPaid st),
                         pi_date = now_ISO env,
                         pi_mode_of_payment = modeOfPayment st,
                         pi_description =
                           (if trim_of env (description st) = [] then None
                            else Some (trim_of env (description st))),
                         pi_receipt_number = generatedReceiptNumber \<rparr>;
                     loading = toasts st @ [Toast_loading ''Recording payment...'']
                 in (case store_reply env paymentData of
                       Inserted \<Rightarrow>
                         st\<lparr> payments_table := payments_table st @ [paymentData],
                             toasts := loading @
                               [Toast_success (''Payment recorded. Receipt #: '' @
                                  generatedReceiptNumber)],
                             amountPaid := [],
                             modeOfPayment := ''cash'',
                             description := [],
                             manualReceiptNumber := [],
                             isSubmittingPayment := False \<rparr>
                     | Rejected msg \<Rightarrow>
                         st\<lparr> toasts := loading @
                               [Toast_error (''Failed to record payment: '' @ msg)],
                             isSubmittingPayment := False \<rparr>
                     | Thrown msg \<Rightarrow>
                         st\<lparr> toasts := loading @
                               [Toast_error
                                  (if truthy_str msg then cell_str msg
                                   else ''An unexpected error occurred during payment.'')],
                             isSubmittingPayment := False \<rparr>)))"

subsection \<open>Auxiliary readings of a student row\<close>

text \<open>\<^verbatim>\<open>s.student_fee_types?.map(...) || []\<close> runs over no line when the list is missing.\<close>

definition lines_of :: "StudentRow \<Rightarrow> StudentFeeType list" where
  "lines_of s = (case student_fee_types s of None \<Rightarrow> [] | Some l \<Rightarrow> l)"

subsection \<open>Sample rows\<close>

text \<open>
  The scenario of the specification: a tuition fee of 1000 with a discount of 100 that
  is already scheduled, and a transport fee of 500 scheduled for a later month. The
  reference day is 1 May 2024.
\<close>

definition sample_now :: string where
  "sample_now = ''2024-05-01T09:30:00.000Z''"

definition fee_type_on :: "string \<Rightarrow> rat \<Rightarrow> string option \<Rightarrow> FeeTypeRow" where
  "fee_type_on nm amount sched =
     \<lparr> ft_id = ''ft-'' @ nm, ft_name = nm, default_amount = Some amount,
       scheduled_date = sched \<rparr>"

definition line_of :: "rat option \<Rightarrow> rat option \<Rightarrow> FeeTypeRow option \<Rightarrow> StudentFeeType" where
  "line_of amount disc ft =
     \<lparr> assigned_amount = amount, discount = disc, discount_description = None,
       net_payable_amount = None, fee_type = ft \<rparr>"

definition payment_of :: "rat \<Rightarrow> Payment" where
  "payment_of amount =
     \<lparr> date = ''2024-04-15T10:00:00+00:00'', amount_paid = amount,
       mode_of_payment = ''cash'', receipt_number = ''R-1713175200000'' \<rparr>"

definition student_with :: "rat list \<Rightarrow> StudentFeeType list \<Rightarrow> StudentRow" where
  "student_with amounts ls =
     \<lparr> payments = Some (map payment_of amounts), student_fee_types = Some ls \<rparr>"

definition tuition_line :: StudentFeeType where
  "tuition_line =
     line_of (Some 1000) (Some 100) (Some (fee_type_on ''Tuition'' 1000 (Some ''2024-04-01'')))"

definition transport_line :: StudentFeeType where
  "transport_line =
     line_of (Some 500) (Some 0) (Some (fee_type_on ''Transport'' 500 (Some ''2024-06-01'')))"

definition scenario_student :: StudentRow where
  "scenario_student = student_with [900] [tuition_line, transport_line]"

text \<open>
  A student whose only fee is \<open>5 / 512 = 0.009765625\<close>, a double between \<open>0.009\<close> and
  \<open>0.01\<close>, and who has paid nothing.
\<close>

definition small_fee_student :: StudentRow where
  "small_fee_student =
     student_with [] [line_of (Some (5 / 512)) None (Some (fee_type_on ''Badge'' (5 / 512) None))]"

text \<open>
  A student with a fee of 100 and a discount of 99.995, that is, of the double nearest
  to it; nothing is paid.
\<close>

definition half_paisa_student :: StudentRow where
  "half_paisa_student =
     student_with []
       [line_of (Some 100) (Some (fl 99.995)) (Some (fee_type_on ''Badge'' 100 None))]"

text \<open>
  Two fees of 100.10 and 200.20 (the doubles nearest to them), both due and without
  discount, for a student who has made two payments of the same amounts.
\<close>

definition rounding_student :: StudentRow where
  "rounding_student =
     student_with [fl 100.1, fl 200.2]
       [line_of (Some (fl 100.1)) None (Some (fee_type_on ''Tuition'' (fl 100.1) None)),
        line_of (Some (fl 200.2)) None (Some (fee_type_on ''Transport'' (fl 200.2) None))]"

text \<open>
  Three lines with missing values: no amount and no discount on a fee type with default
  750; no amount, a discount of 50 and no fee type; an amount of 0 on a fee type with
  default 300.
\<close>

definition defaults_student :: StudentRow where
  "defaults_student =
     student_with []
       [line_of None None (Some (fee_type_on ''Tuition'' 750 None)),
        line_of None (Some 50) None,
        line_of (Some 0) None (Some (fee_type_on ''Exam'' 300 None))]"

text \<open>
  A student with a due fee of 100, and a line that is not yet scheduled whose discount
  of 50 is larger than its amount of 0.
\<close>

definition over_discounted_student :: StudentRow where
  "over_discounted_student =
     student_with []
       [line_of (Some 100) None (Some (fee_type_on ''Tuition'' 100 None)),
        line_of (Some 0) (Some 50) (Some (fee_type_on ''Transport'' 0 (Some ''2024-06-01'')))]"

text \<open>A line whose joined fee type is missing.\<close>

definition orphan_line :: StudentFeeType where
  "orphan_line = line_of (Some 250) (Some 50) None"

text \<open>
  A student with the two lines of the scenario, an examination fee scheduled on the
  reference day itself, the line without a fee type, and a library fee without a
  scheduled date.
\<close>

definition exam_line :: StudentFeeType where
  "exam_line = line_of (Some 300) None (Some (fee_type_on ''Exam'' 300 (Some ''2024-05-01'')))"

definition library_line :: StudentFeeType where
  "library_line = line_of None None (Some (fee_type_on ''Library'' 50 None))"

definition calendar_student :: StudentRow where
  "calendar_student =
     student_with [] [tuition_line, transport_line, exam_line, orphan_line, library_line]"

text \<open>The twelve cells of the scenario student's row in the export.\<close>

definition sample_row :: "StudentWithPayments \<Rightarrow> cell list" where
  "sample_row stu =
     [Some ''Rao, Asha'', Some ''Class 5'', None, Some ''1400.00'', Some ''900.00'',
      Some ''500.00'', Some ''Partially_paid'', Some ''4/15/2024'', Some ''900.00'',
      Some ''cash'', Some ''2024'', Some ''R-1713175200000'']"

text \<open>
  Surroundings in which the store accepts every row, and a page on which a student of
  the school is selected and the text \<open>a\<close> is entered as the amount.
\<close>

definition sample_Number :: "string \<Rightarrow> rat option" where
  "sample_Number a =
     (if a = ''250.50'' then Some 250.5
      else if a = ''0'' then Some 0
      else if a = ''-5'' then Some (- 5)
      else if a = [] then Some 0
      else None)"

text \<open>A trim that strips the ASCII white space, enough for the sample texts.\<close>

definition ascii_space :: "char \<Rightarrow> bool" where
  "ascii_space c = (c \<in> set [CHR '' '', CHR 0x09, CHR 0x0A, CHR 0x0B, CHR 0x0C, CHR 0x0D])"

definition ascii_trim :: "string \<Rightarrow> string" where
  "ascii_trim s = rev (dropWhile ascii_space (rev (dropWhile ascii_space s)))"

definition sample_env :: Surroundings where
  "sample_env =
     \<lparr> Number_of = sample_Number, parseFloat_of = sample_Number, trim_of = ascii_trim,
       Date_now = 1714555800000, now_ISO = sample_now, store_reply = (\<lambda>row. Inserted) \<rparr>"

definition sample_page :: "string \<Rightarrow> PaymentPage" where
  "sample_page a =
     \<lparr> selectedStudent = Some \<lparr> sli_id = ''stu-1'', sli_name = ''Asha'', sli_school_id = ''sch-1'' \<rparr>,
       schoolId = Some ''sch-1'', amountPaid = a, modeOfPayment = ''upi'',
       description = '' first term '', manualReceiptNumber = [],
       isSubmittingPayment = False, toasts = [], payments_table = [] \<rparr>"

lemmas sample_defs =
  sample_now_def fee_type_on_def line_of_def payment_of_def student_with_def
  tuition_line_def transport_line_def scenario_student_def small_fee_student_def
  half_paisa_student_def over_discounted_student_def orphan_line_def
  exam_line_def library_line_def calendar_student_def rounding_student_def
  defaults_student_def

lemmas resolver_defs =
  enrichStudent_def resolve_fees_def resolver_step_def resolver_init_def
  netPayableForThisFee_def assignedAmount_def discount_of_def totalPaid_of_def
  reduce_payments_def or_opt_num_def or_num_def todayISO_of_def lines_of_def
  counted_as_due_def truthy_str_def js_add_def js_sub_def Let_def

section \<open>Properties\<close>

subsection \<open>Rounding to the nearest double\<close>

text \<open>
  What the proofs below need of \<open>fl\<close>: it keeps 0 and every double, whole numbers up to
  \<open>2 ^ 53\<close> among them, it is monotone, and rounding twice is rounding once.
\<close>

lemma two_emin_pos: "0 < two_emin"
  by (simp add: two_emin_def)

lemma round_even_of_int: "round_even (of_int n) = n"
  by (simp add: round_even_def)

lemma round_even_mono:
  assumes "r \<le> s"
  shows "round_even r \<le> round_even s"
proof (cases "\<lfloor>r\<rfloor> = \<lfloor>s\<rfloor>")
  case True
  with assms show ?thesis
    by (auto simp: round_even_def Let_def)
next
  case False
  with assms have lt: "\<lfloor>r\<rfloor> < \<lfloor>s\<rfloor>"
    using floor_mono [of r s] by linarith
  have "round_even r \<le> \<lfloor>r\<rfloor> + 1"
    by (auto simp: round_even_def Let_def)
  moreover have "\<lfloor>s\<rfloor> \<le> round_even s"
    by (auto simp: round_even_def Let_def)
  ultimately show ?thesis using lt by linarith
qed

lemma round_even_ge: "of_int a \<le> r \<Longrightarrow> a \<le> round_even r"
  using round_even_mono [of "of_int a" r] by (simp add: round_even_of_int)

lemma round_even_le: "r \<le> of_int b \<Longrightarrow> round_even r \<le> b"
  using round_even_mono [of r "of_int b"] by (simp add: round_even_of_int)

lemma dbl_k_upper: "\<bar>x\<bar> * two_emin < 2 ^ (dbl_k x + 1)"
proof -
  let ?y = "\<bar>x\<bar> * two_emin"
  let ?n = "\<lfloor>?y\<rfloor>"
  have y0: "0 \<le> ?y" using two_emin_pos by simp
  then have n0: "0 \<le> ?n" by simp
  show ?thesis
  proof (cases "?n = 0")
    case True
    then have "?y < 1" by linarith
    also have "(1::rat) \<le> 2 ^ (dbl_k x + 1)" by (rule one_le_power) simp
    finally show ?thesis .
  next
    case False
    with n0 have pos: "0 < ?n" by linarith
    then have b1: "1 \<le> bitlen ?n"
      using bitlen_eq_zero_iff [of ?n] bitlen_nonneg [of ?n] by linarith
    then have k: "nat (bitlen ?n) = dbl_k x + 1"
      by (simp add: dbl_k_def)
    from bitlen_bounds [OF pos] have "?n < 2 ^ nat (bitlen ?n)" by simp
    then have "?n + 1 \<le> 2 ^ (dbl_k x + 1)" by (simp add: k)
    then have "(of_int (?n + 1) :: rat) \<le> of_int (2 ^ (dbl_k x + 1))"
      by (simp only: of_int_le_iff)
    moreover have "?y < of_int (?n + 1)" by linarith
    ultimately show ?thesis by simp
  qed
qed

lemma dbl_k_lower:
  assumes "0 < dbl_k x"
  shows "2 ^ dbl_k x \<le> \<bar>x\<bar> * two_emin"
proof -
  let ?y = "\<bar>x\<bar> * two_emin"
  let ?n = "\<lfloor>?y\<rfloor>"
  from assms have "1 < bitlen ?n" by (simp add: dbl_k_def)
  then have pos: "0 < ?n"
    using bitlen_eq_zero_iff [of ?n] by linarith
  from bitlen_bounds [OF pos] have "2 ^ nat (bitlen ?n - 1) \<le> ?n" by simp
  then have "2 ^ dbl_k x \<le> ?n" by (simp add: dbl_k_def)
  then have "(of_int (2 ^ dbl_k x) :: rat) \<le> of_int ?n"
    by (simp only: of_int_le_iff)
  also have "\<dots> \<le> ?y" by linarith
  finally show ?thesis by simp
qed

lemma dbl_k_unique:
  assumes "2 ^ j \<le> \<bar>x\<bar> * two_emin" and "\<bar>x\<bar> * two_emin < 2 ^ (j + 1)"
  shows "dbl_k x = j"
proof -
  let ?y = "\<bar>x\<bar> * two_emin"
  let ?n = "\<lfloor>?y\<rfloor>"
  have "(of_int (2 ^ j) :: rat) \<le> ?y" using assms(1) by simp
  then have lo: "2 ^ j \<le> ?n" by (simp only: le_floor_iff)
  have "?y < of_int (2 ^ (j + 1))" using assms(2) by simp
  then have hi: "?n < 2 ^ (j + 1)" by (simp only: floor_less_iff)
  have "bitlen ?n \<le> int (j + 1)"
    using hi by (simp add: bitlen_le_iff_power nat_add_distrib)
  moreover have "int (j + 1) \<le> bitlen ?n"
    using lo by (simp add: bitlen_ge_iff_power nat_add_distrib)
  ultimately have "bitlen ?n = int j + 1" by simp
  then show ?thesis by (simp add: dbl_k_def)
qed

lemma dbl_k_mono:
  assumes "\<bar>x\<bar> \<le> \<bar>y\<bar>"
  shows "dbl_k x \<le> dbl_k y"
proof -
  have "\<bar>x\<bar> * two_emin \<le> \<bar>y\<bar> * two_emin"
    using assms two_emin_pos by simp
  then have "\<lfloor>\<bar>x\<bar> * two_emin\<rfloor> \<le> \<lfloor>\<bar>y\<bar> * two_emin\<rfloor>" by (rule floor_mono)
  then have "bitlen \<lfloor>\<bar>x\<bar> * two_emin\<rfloor> \<le> bitlen \<lfloor>\<bar>y\<bar> * two_emin\<rfloor>"
    by (simp add: bitlen_def floorlog_mono)
  then show ?thesis by (simp add: dbl_k_def)
qed

lemma dbl_ratio_upper: "dbl_ratio x < 2 ^ 53"
proof -
  have "\<bar>x\<bar> * two_emin < 2 * 2 ^ dbl_k x"
    using dbl_k_upper [of x] by simp
  then have "\<bar>x\<bar> * two_emin / 2 ^ dbl_k x < 2"
    by (simp add: pos_divide_less_eq)
  then have "\<bar>x\<bar> * two_emin / 2 ^ dbl_k x * 2 ^ 52 < 2 * 2 ^ 52"
    by (rule mult_strict_right_mono) simp
  then show ?thesis by (simp add: dbl_ratio_def)
qed

lemma dbl_ratio_lower:
  assumes "0 < dbl_k x"
  shows "2 ^ 52 \<le> dbl_ratio x"
proof -
  have "1 \<le> \<bar>x\<bar> * two_emin / 2 ^ dbl_k x"
    using dbl_k_lower [OF assms] by (simp add: pos_le_divide_eq)
  then have "1 * 2 ^ 52 \<le> \<bar>x\<bar> * two_emin / 2 ^ dbl_k x * 2 ^ 52"
    by (rule mult_right_mono) simp
  then show ?thesis by (simp add: dbl_ratio_def)
qed

lemma dbl_ratio_nonneg: "0 \<le> dbl_ratio x"
  using two_emin_pos by (simp add: dbl_ratio_def)

lemma mant_upper: "round_even (dbl_ratio x) \<le> 2 ^ 53"
  using dbl_ratio_upper [of x] by (intro round_even_le) simp

lemma mant_lower: "0 < dbl_k x \<Longrightarrow> 2 ^ 52 \<le> round_even (dbl_ratio x)"
  using dbl_ratio_lower [of x] by (intro round_even_ge) simp

lemma mant_nonneg: "0 \<le> round_even (dbl_ratio x)"
  using dbl_ratio_nonneg [of x] by (intro round_even_ge) simp

lemma fl_mag_nonneg: "0 \<le> fl_mag x"
  using mant_nonneg [of x] two_emin_pos by (simp add: fl_mag_def)

lemma fl_mag_abs: "fl_mag \<bar>x\<bar> = fl_mag x"
  by (simp add: fl_mag_def dbl_ratio_def dbl_k_def)

lemma fl_mag_minus: "fl_mag (- x) = fl_mag x"
  by (simp add: fl_mag_def dbl_ratio_def dbl_k_def)

lemma fl_mag_mono:
  assumes "\<bar>x\<bar> \<le> \<bar>y\<bar>"
  shows "fl_mag x \<le> fl_mag y"
proof -
  have k: "dbl_k x \<le> dbl_k y" using assms by (rule dbl_k_mono)
  have "of_int (round_even (dbl_ratio x)) * (2::rat) ^ dbl_k x \<le>
        of_int (round_even (dbl_ratio y)) * 2 ^ dbl_k y"
  proof (cases "dbl_k x = dbl_k y")
    case True
    have "\<bar>x\<bar> * two_emin * 2 ^ 52 \<le> \<bar>y\<bar> * two_emin * 2 ^ 52"
      using assms two_emin_pos by simp
    then have "dbl_ratio x \<le> dbl_ratio y"
      by (simp add: dbl_ratio_def True divide_right_mono)
    then have "round_even (dbl_ratio x) \<le> round_even (dbl_ratio y)"
      by (rule round_even_mono)
    then have "(of_int (round_even (dbl_ratio x)) :: rat) \<le> of_int (round_even (dbl_ratio y))"
      by simp
    then show ?thesis
      by (simp add: True)
  next
    case False
    with k have lt: "dbl_k x + 1 \<le> dbl_k y" and pos: "0 < dbl_k y" by simp_all
    have "(of_int (round_even (dbl_ratio x)) :: rat) \<le> of_int (2 ^ 53)"
      using mant_upper [of x] by (simp only: of_int_le_iff)
    then have "of_int (round_even (dbl_ratio x)) * (2::rat) ^ dbl_k x \<le> 2 ^ 53 * 2 ^ dbl_k x"
      by (intro mult_right_mono) simp_all
    also have "\<dots> = 2 ^ 52 * (2::rat) ^ (dbl_k x + 1)" by simp
    also have "\<dots> \<le> 2 ^ 52 * (2::rat) ^ dbl_k y"
      using lt by (intro mult_left_mono power_increasing) simp_all
    also have "\<dots> \<le> of_int (round_even (dbl_ratio y)) * 2 ^ dbl_k y"
    proof -
      have "(of_int (2 ^ 52) :: rat) \<le> of_int (round_even (dbl_ratio y))"
        using mant_lower [OF pos] by (simp only: of_int_le_iff)
      then show ?thesis by (intro mult_right_mono) simp_all
    qed
    finally show ?thesis .
  qed
  then show ?thesis
    using two_emin_pos by (simp add: fl_mag_def divide_right_mono)
qed

lemma fl_mag_representable:
  fixes m j :: nat
  assumes "m \<le> 2 ^ 53"
  shows "fl_mag (of_nat m * 2 ^ j / (two_emin * 2 ^ 52)) = of_nat m * 2 ^ j / (two_emin * 2 ^ 52)"
proof -
  define S where "S = two_emin * 2 ^ 52"
  define v where "v = of_nat m * 2 ^ j / S"
  define k where "k = dbl_k v"
  have S: "0 < S" using two_emin_pos by (simp add: S_def)
  have v0: "0 \<le> v" using S by (simp add: v_def)
  have "dbl_ratio v = v * S / 2 ^ k"
    using v0 by (simp add: dbl_ratio_def S_def k_def)
  also have "v * S = of_nat m * 2 ^ j"
    using S by (simp add: v_def)
  finally have r: "dbl_ratio v = of_nat m * 2 ^ j / 2 ^ k" .
  have "\<exists>n::int. dbl_ratio v = of_int n"
  proof (cases "k \<le> j")
    case True
    then have "(2::rat) ^ j = 2 ^ (j - k) * 2 ^ k"
      by (simp add: power_add [symmetric])
    then have "dbl_ratio v = of_nat m * 2 ^ (j - k)"
      by (simp add: r)
    also have "\<dots> = of_int (int m * 2 ^ (j - k))" by simp
    finally show ?thesis ..
  next
    case False
    then obtain d where d: "k = j + Suc d"
      by (metis add_Suc_right less_iff_Suc_add not_le)
    then have pos: "0 < dbl_k v" by (simp add: k_def)
    have "\<bar>v\<bar> * two_emin * 2 ^ 52 = of_nat m * 2 ^ j"
      using v0 S by (simp add: v_def S_def)
    moreover have "(2::rat) ^ k * 2 ^ 52 \<le> \<bar>v\<bar> * two_emin * 2 ^ 52"
      using dbl_k_lower [OF pos] by (simp add: k_def)
    ultimately have "(2::rat) ^ k * 2 ^ 52 \<le> of_nat m * 2 ^ j" by simp
    also have "(2::rat) ^ k * 2 ^ 52 = (2 ^ Suc d * 2 ^ 52) * 2 ^ j"
      by (simp add: d power_add)
    finally have "(2::rat) ^ Suc d * 2 ^ 52 \<le> of_nat m"
      by (simp only: mult_le_cancel_right_pos zero_less_power zero_less_numeral)
    then have "(of_nat (2 ^ Suc d * 2 ^ 52) :: rat) \<le> of_nat m" by simp
    then have le: "2 ^ Suc d * 2 ^ 52 \<le> m" by (simp only: of_nat_le_iff)
    with assms have "(2::nat) ^ Suc d * 2 ^ 52 \<le> 2 ^ 53" by (rule order_trans [rotated])
    then have "(2::nat) ^ d \<le> 1" by simp
    have d0: "d = 0"
    proof (rule ccontr)
      assume "d \<noteq> 0"
      then have "(2::nat) ^ 1 \<le> 2 ^ d"
        by (intro power_increasing) simp_all
      with \<open>(2::nat) ^ d \<le> 1\<close> show False by simp
    qed
    with le assms have m: "m = 2 ^ 53" by simp
    have "dbl_ratio v = 2 ^ 53 * 2 ^ j / (2 ^ j * 2)"
      using d d0 by (simp add: r m)
    also have "\<dots> = of_int (2 ^ 52)" by simp
    finally show ?thesis ..
  qed
  then obtain n :: int where n: "dbl_ratio v = of_int n" ..
  have "fl_mag v = of_int n * 2 ^ k / S"
    by (simp add: fl_mag_def n round_even_of_int k_def S_def)
  also have "\<dots> = dbl_ratio v * 2 ^ k / S"
    by (simp add: n)
  also have "dbl_ratio v * 2 ^ k = of_nat m * 2 ^ j"
    by (simp add: r)
  finally have "fl_mag v = v" by (simp only: v_def)
  then show ?thesis by (simp only: v_def S_def)
qed

lemma fl_mag_idem: "fl_mag (fl_mag x) = fl_mag x"
proof -
  let ?m = "nat (round_even (dbl_ratio x))"
  have m: "(of_nat ?m :: rat) = of_int (round_even (dbl_ratio x))"
    using mant_nonneg [of x] by simp
  have "?m \<le> 2 ^ 53"
    using mant_upper [of x] by (simp add: nat_le_iff)
  then have "fl_mag (of_nat ?m * 2 ^ dbl_k x / (two_emin * 2 ^ 52)) =
             of_nat ?m * 2 ^ dbl_k x / (two_emin * 2 ^ 52)"
    by (rule fl_mag_representable)
  then show ?thesis
    by (simp only: m fl_mag_def [symmetric])
qed

lemma fl_zero [simp]: "fl 0 = 0"
  by (simp add: fl_def fl_mag_def dbl_ratio_def round_even_def)

lemma fl_mono:
  assumes "x \<le> y"
  shows "fl x \<le> fl y"
proof -
  consider "0 \<le> x" | "x < 0" "0 \<le> y" | "y < 0" by linarith
  then show ?thesis
  proof cases
    case 1
    with assms have "\<bar>x\<bar> \<le> \<bar>y\<bar>" by simp
    then have "fl_mag x \<le> fl_mag y" by (rule fl_mag_mono)
    with 1 assms show ?thesis by (simp add: fl_def)
  next
    case 2
    then show ?thesis
      using fl_mag_nonneg [of x] fl_mag_nonneg [of y] by (simp add: fl_def)
  next
    case 3
    with assms have "\<bar>y\<bar> \<le> \<bar>x\<bar>" by simp
    then have "fl_mag y \<le> fl_mag x" by (rule fl_mag_mono)
    with 3 assms show ?thesis by (simp add: fl_def)
  qed
qed

lemma fl_idem [simp]: "fl (fl x) = fl x"
proof (cases "x < 0")
  case False
  then have "fl x = fl_mag x" by (simp add: fl_def)
  moreover have "\<not> fl_mag x < 0" using fl_mag_nonneg [of x] by simp
  ultimately show ?thesis by (simp add: fl_def fl_mag_idem)
next
  case True
  then have e: "fl x = - fl_mag x" by (simp add: fl_def)
  show ?thesis
  proof (cases "fl_mag x = 0")
    case True
    with e show ?thesis by (simp add: fl_zero)
  next
    case False
    then have "- fl_mag x < 0" using fl_mag_nonneg [of x] by simp
    then show ?thesis
      by (simp add: e fl_def fl_mag_minus fl_mag_idem)
  qed
qed

lemma fl_nonneg: "0 \<le> x \<Longrightarrow> 0 \<le> fl x"
  using fl_mono [of 0 x] by (simp add: fl_zero)

lemma two_emin_mant: "two_emin * 2 ^ 52 = 2 ^ 1074"
  by (simp add: two_emin_def)

lemma fl_of_int:
  assumes "\<bar>n\<bar> \<le> 2 ^ 53"
  shows "fl (of_int n) = of_int n"
proof -
  have "nat \<bar>n\<bar> \<le> 2 ^ 53" using assms by (simp add: nat_le_iff)
  then have "fl_mag (of_nat (nat \<bar>n\<bar>) * 2 ^ 1074 / (two_emin * 2 ^ 52)) =
             of_nat (nat \<bar>n\<bar>) * 2 ^ 1074 / (two_emin * 2 ^ 52)"
    by (rule fl_mag_representable)
  then have "fl_mag (of_nat (nat \<bar>n\<bar>)) = of_nat (nat \<bar>n\<bar>)"
    by (simp only: two_emin_mant) simp
  then have "fl_mag (of_int \<bar>n\<bar>) = of_int \<bar>n\<bar>" by simp
  then have "fl_mag (of_int n) = \<bar>of_int n\<bar>"
    using fl_mag_abs [of "of_int n"] by simp
  then show ?thesis by (simp add: fl_def)
qed

lemma fl_mag_binade:
  fixes e :: nat
  assumes "2 ^ e \<le> \<bar>x\<bar>" and "\<bar>x\<bar> < 2 ^ (e + 1)"
  shows "fl_mag x = of_int (round_even (\<bar>x\<bar> * 2 ^ 52 / 2 ^ e)) * 2 ^ e / 2 ^ 52"
proof -
  have p: "(2::rat) ^ (e + 1022) = 2 ^ e * two_emin"
    by (simp only: two_emin_def power_add)
  have p': "(2::rat) ^ (e + 1022 + 1) = 2 ^ (e + 1) * two_emin"
    by (simp only: two_emin_def power_add) simp
  have "2 ^ e * two_emin \<le> \<bar>x\<bar> * two_emin"
    using assms(1) two_emin_pos by (simp only: mult_le_cancel_right_pos)
  moreover have "\<bar>x\<bar> * two_emin < 2 ^ (e + 1) * two_emin"
    using assms(2) two_emin_pos by (simp only: mult_less_cancel_right_pos)
  ultimately have k: "dbl_k x = e + 1022"
    by (intro dbl_k_unique) (simp_all only: p p')
  have t: "two_emin \<noteq> 0" using two_emin_pos by simp
  have "dbl_ratio x = \<bar>x\<bar> * 2 ^ 52 / 2 ^ e"
    using t by (simp add: dbl_ratio_def k p)
  then show ?thesis
    using t by (simp add: fl_mag_def k p)
qed

lemma fl_mag_small_binade:
  fixes n :: nat
  assumes "n \<le> 1022" and "1 \<le> \<bar>x\<bar> * 2 ^ n" and "\<bar>x\<bar> * 2 ^ n < 2"
  shows "fl_mag x = of_int (round_even (\<bar>x\<bar> * 2 ^ 52 * 2 ^ n)) / (2 ^ 52 * 2 ^ n)"
proof -
  define j where "j = 1022 - n"
  have e: "two_emin = 2 ^ j * 2 ^ n"
    using assms(1) by (simp only: two_emin_def j_def power_add [symmetric]) simp
  have "2 ^ j * 1 \<le> 2 ^ j * (\<bar>x\<bar> * 2 ^ n)"
    using assms(2) by (intro mult_left_mono) simp_all
  then have lo: "2 ^ j \<le> \<bar>x\<bar> * two_emin"
    by (simp add: e mult_ac)
  have "2 ^ j * (\<bar>x\<bar> * 2 ^ n) < 2 ^ j * 2"
    using assms(3) by (intro mult_strict_left_mono) simp_all
  then have hi: "\<bar>x\<bar> * two_emin < 2 ^ (j + 1)"
    by (simp add: e mult_ac)
  from lo hi have k: "dbl_k x = j" by (rule dbl_k_unique)
  have "dbl_ratio x = \<bar>x\<bar> * 2 ^ 52 * 2 ^ n"
    by (simp add: dbl_ratio_def k e)
  then show ?thesis
    by (simp add: fl_mag_def k e)
qed

lemma round_even_eqI:
  assumes "of_int n - 1 / 2 < r" and "r < of_int n + 1 / 2"
  shows "round_even r = n"
proof (cases "of_int n \<le> r")
  case True
  with assms have "\<lfloor>r\<rfloor> = n" by (intro floor_unique) simp_all
  with assms show ?thesis by (simp add: round_even_def Let_def)
next
  case False
  with assms have f: "\<lfloor>r\<rfloor> = n - 1" by (intro floor_unique) simp_all
  from assms have "\<not> r - of_int (n - 1) < 1 / 2" "1 / 2 < r - of_int (n - 1)" by simp_all
  with f show ?thesis by (simp add: round_even_def Let_def)
qed

lemma round_even_tie:
  assumes "r = of_int n + 1 / 2"
  shows "round_even r = (if even n then n else n + 1)"
proof -
  have "\<lfloor>r\<rfloor> = n" using assms by (intro floor_unique) simp_all
  with assms show ?thesis by (simp add: round_even_def Let_def)
qed

lemma fl_numeral [simp]:
  "numeral w \<le> (9007199254740992::int) \<Longrightarrow> fl (numeral w) = numeral w"
  using fl_of_int [of "numeral w"] by simp

lemma fl_neg_numeral [simp]:
  "numeral w \<le> (9007199254740992::int) \<Longrightarrow> fl (- numeral w) = - numeral w"
  using fl_of_int [of "- numeral w"] by simp

lemma fl_one [simp]: "fl 1 = 1"
  using fl_of_int [of 1] by simp

lemma fl_dyadic:
  assumes "\<bar>n\<bar> \<le> 2 ^ 53" and "i \<le> 1074"
  shows "fl (of_int n / 2 ^ i) = of_int n / 2 ^ i"
proof -
  have e: "(2::rat) ^ 1074 = 2 ^ (1074 - i) * 2 ^ i"
    using assms(2) by (simp only: power_add [symmetric]) simp
  have "nat \<bar>n\<bar> \<le> 2 ^ 53" using assms(1) by (simp add: nat_le_iff)
  then have "fl_mag (of_nat (nat \<bar>n\<bar>) * 2 ^ (1074 - i) / (two_emin * 2 ^ 52)) =
             of_nat (nat \<bar>n\<bar>) * 2 ^ (1074 - i) / (two_emin * 2 ^ 52)"
    by (rule fl_mag_representable)
  moreover have "of_nat (nat \<bar>n\<bar>) * 2 ^ (1074 - i) / (two_emin * 2 ^ 52) =
                 \<bar>of_int n / (2::rat) ^ i\<bar>"
    by (simp only: two_emin_mant e) simp
  ultimately have m: "fl_mag (of_int n / 2 ^ i) = \<bar>of_int n / 2 ^ i\<bar>"
    by (simp only: fl_mag_abs)
  show ?thesis
  proof (cases "of_int n / (2::rat) ^ i < 0")
    case True
    then show ?thesis by (simp only: fl_def m if_True abs_of_neg minus_minus)
  next
    case False
    then have "0 \<le> of_int n / (2::rat) ^ i" by simp
    with False show ?thesis by (simp only: fl_def m if_False abs_of_nonneg)
  qed
qed

lemma fl_binade:
  fixes e :: nat
  assumes "2 ^ e \<le> x" and "x < 2 ^ (e + 1)"
    and "of_int m - 1 / 2 < x * 2 ^ 52 / 2 ^ e" and "x * 2 ^ 52 / 2 ^ e < of_int m + 1 / 2"
  shows "fl x = of_int m * 2 ^ e / 2 ^ 52"
proof -
  have x0: "0 < x" using assms(1) by (rule less_le_trans [rotated]) simp
  then have a: "\<bar>x\<bar> = x" by simp
  have "fl_mag x = of_int (round_even (\<bar>x\<bar> * 2 ^ 52 / 2 ^ e)) * 2 ^ e / 2 ^ 52"
    using assms(1,2) by (intro fl_mag_binade) (simp_all only: a)
  moreover have "round_even (x * 2 ^ 52 / 2 ^ e) = m"
    using assms(3,4) by (rule round_even_eqI)
  ultimately show ?thesis
    using x0 by (simp add: fl_def a)
qed

lemma fl_binade_tie:
  fixes e :: nat
  assumes "2 ^ e \<le> x" and "x < 2 ^ (e + 1)"
    and "x * 2 ^ 52 / 2 ^ e = of_int m + 1 / 2" and "even m"
  shows "fl x = of_int m * 2 ^ e / 2 ^ 52"
proof -
  have x0: "0 < x" using assms(1) by (rule less_le_trans [rotated]) simp
  then have a: "\<bar>x\<bar> = x" by simp
  have "fl_mag x = of_int (round_even (\<bar>x\<bar> * 2 ^ 52 / 2 ^ e)) * 2 ^ e / 2 ^ 52"
    using assms(1,2) by (intro fl_mag_binade) (simp_all only: a)
  moreover have "round_even (x * 2 ^ 52 / 2 ^ e) = m"
    using round_even_tie [OF assms(3)] assms(4) by simp
  ultimately show ?thesis
    using x0 by (simp add: fl_def a)
qed

lemma fl_small_binade:
  fixes n :: nat
  assumes "n \<le> 1022" and "1 \<le> x * 2 ^ n" and "x * 2 ^ n < 2"
    and "of_int m - 1 / 2 < x * 2 ^ 52 * 2 ^ n" and "x * 2 ^ 52 * 2 ^ n < of_int m + 1 / 2"
  shows "fl x = of_int m / (2 ^ 52 * 2 ^ n)"
proof -
  have "0 < x * 2 ^ n" using assms(2) by simp
  then have x0: "0 < x" by (simp add: zero_less_mult_iff)
  then have a: "\<bar>x\<bar> = x" by simp
  have "fl_mag x = of_int (round_even (\<bar>x\<bar> * 2 ^ 52 * 2 ^ n)) / (2 ^ 52 * 2 ^ n)"
    using assms(1,2,3) by (intro fl_mag_small_binade) (simp_all only: a)
  moreover have "round_even (x * 2 ^ 52 * 2 ^ n) = m"
    using assms(4,5) by (rule round_even_eqI)
  ultimately show ?thesis
    using x0 by (simp add: fl_def a)
qed

text \<open>
  The doubles of the sample rows: those nearest to 100.1, 200.2 and 99.995, the rounded
  sum of the first two, and the difference \<open>100 - fl 99.995\<close>, which is a double itself.
\<close>

lemma fl_100_1: "fl (1001 / 10) = 3521955646092083 / 35184372088832"
  using fl_binade [of 6 "1001 / 10" 7043911292184166] by simp

lemma fl_200_2: "fl (1001 / 5) = 3521955646092083 / 17592186044416"
  using fl_binade [of 7 "1001 / 5" 7043911292184166] by simp

lemma fl_300_3_sum:
  "fl (10565866938276249 / 35184372088832) = 1320733367284531 / 4398046511104"
  using fl_binade_tie [of 8 "10565866938276249 / 35184372088832" 5282933469138124] by simp

lemma fl_99_995: "fl (19999 / 200) = 879565321755689 / 8796093022208"
  using fl_binade [of 6 "19999 / 200" 7036522574045512] by simp

lemma fl_100_minus: "fl (43980465111 / 8796093022208) = 43980465111 / 8796093022208"
  using fl_dyadic [of 43980465111 43] by simp

lemma fl_small_fee: "fl (5 / 512) = 5 / 512"
  using fl_dyadic [of 5 9] by simp

lemma fl_100_1_double:
  "fl (3521955646092083 / 35184372088832) = 3521955646092083 / 35184372088832"
  using fl_idem [of "1001 / 10"] by (simp only: fl_100_1)

lemma fl_200_2_double:
  "fl (3521955646092083 / 17592186044416) = 3521955646092083 / 17592186044416"
  using fl_idem [of "1001 / 5"] by (simp only: fl_200_2)

text \<open>
  The literal \<^verbatim>\<open>0.009\<close> of the status classifier is the double just below \<open>9 / 1000\<close>.
  No double lies between the two, so on doubles comparing with the literal and
  comparing with \<open>9 / 1000\<close> are the same test.
\<close>

lemma fl_0_009: "fl (9 / 1000) = 5188146770730811 / 576460752303423488"
  using fl_small_binade [of 7 "9 / 1000" 5188146770730811] by simp

lemma threshold_literal:
  assumes "fl F = F"
  shows "(F \<le> fl 0.009) = (F \<le> 0.009)"
proof
  assume "F \<le> fl 0.009"
  also have "fl 0.009 \<le> (0.009 :: rat)" by (simp add: fl_0_009)
  finally show "F \<le> 0.009" .
next
  assume "F \<le> 0.009"
  then have "fl F \<le> fl 0.009" by (rule fl_mono)
  with assms show "F \<le> fl 0.009" by simp
qed

lemmas sample_doubles =
  fl_100_1 fl_200_2 fl_300_3_sum fl_99_995 fl_100_minus fl_small_fee
  fl_100_1_double fl_200_2_double

subsection \<open>Sums in the code's arithmetic\<close>

lemma foldl_js_add_exact:
  "adds_exactly a xs \<Longrightarrow> foldl js_add a xs = a + sum_list xs"
  by (induction xs arbitrary: a) (simp_all add: js_add_def add.assoc)

lemma js_sum_exact: "adds_exactly 0 xs \<Longrightarrow> js_sum xs = sum_list xs"
  using foldl_js_add_exact [of 0 xs] by (simp add: js_sum_def)

lemma adds_exactly_whole:
  "\<bar>k\<bar> + sum_list (map abs ns) \<le> 2 ^ 53 \<Longrightarrow> adds_exactly (of_int k) (map of_int ns)"
proof (induction ns arbitrary: k)
  case Nil
  then show ?case by simp
next
  case (Cons n ns)
  have b: "\<bar>k + n\<bar> \<le> \<bar>k\<bar> + \<bar>n\<bar>" by (rule abs_triangle_ineq)
  have s: "0 \<le> sum_list (map abs ns)" by (induction ns) simp_all
  from Cons.prems b s have "\<bar>k + n\<bar> \<le> 2 ^ 53" by simp
  then have "fl (of_int (k + n)) = of_int (k + n)" by (rule fl_of_int)
  moreover have "adds_exactly (of_int (k + n)) (map of_int ns)"
    using Cons.prems b by (intro Cons.IH) simp
  ultimately show ?case by simp
qed

subsection \<open>Characterisations of the embedded functions\<close>

lemma or_opt_num_zero: "or_opt_num x 0 = (case x of None \<Rightarrow> 0 | Some v \<Rightarrow> v)"
  by (simp add: or_opt_num_def or_num_def split: option.splits)

lemma getDynamicStatus_cases:
  "getDynamicStatus v s =
     spec_status_rule 0.009
       (if v = FeeView_total then calculated_total_assigned_fees s
        else calculated_due_fees_total s)
       (or_opt_num (totalPaid s) 0)"
  by (simp add: getDynamicStatus_def spec_status_rule_def Let_def)

lemma reduce_payments_js_sum: "reduce_payments ps = js_sum (map amount_paid ps)"
  by (simp add: reduce_payments_def js_sum_def foldl_map)

lemma totalPaid_of_js_sum:
  "totalPaid_of ps = js_sum (map amount_paid (case ps of None \<Rightarrow> [] | Some l \<Rightarrow> l))"
  by (simp add: totalPaid_of_def or_num_def reduce_payments_js_sum js_sum_def
      split: option.splits)

lemma resolver_step_total:
  "total_assigned_acc (resolver_step t acc sft) =
     js_add (total_assigned_acc acc) (netPayableForThisFee sft)"
  by (simp add: resolver_step_def Let_def)

lemma resolver_step_due:
  "due_acc (resolver_step t acc sft) =
     (if counted_as_due t sft then js_add (due_acc acc) (netPayableForThisFee sft)
      else due_acc acc)"
  by (simp add: resolver_step_def counted_as_due_def Let_def split: option.splits)

lemma resolver_step_details:
  "details_acc (resolver_step t acc sft) =
     details_acc acc @
     [\<lparr> fd_name = (case fee_type sft of
                      None \<Rightarrow> ''Unknown Fee Type''
                    | Some ft \<Rightarrow> if ft_name ft = [] then ''Unknown Fee Type'' else ft_name ft),
         fd_assigned_amount = assignedAmount sft,
         fd_discount = discount_of sft,
         net_payable = netPayableForThisFee sft,
         fd_scheduled_date = scheduled_date_of sft \<rparr>]"
  by (simp add: resolver_step_def scheduled_date_of_def Let_def)

lemma foldl_resolver_total:
  "total_assigned_acc (foldl (resolver_step t) acc l) =
     foldl js_add (total_assigned_acc acc) (map netPayableForThisFee l)"
  by (induction l arbitrary: acc) (simp_all add: resolver_step_total)

lemma foldl_resolver_due:
  "due_acc (foldl (resolver_step t) acc l) =
     foldl js_add (due_acc acc) (map netPayableForThisFee (filter (counted_as_due t) l))"
  by (induction l arbitrary: acc) (simp_all add: resolver_step_due)

lemma foldl_resolver_details:
  "map f (details_acc (foldl (resolver_step t) acc l)) =
     map f (details_acc acc) @
     map (\<lambda>sft. f (\<lparr> fd_name = (case fee_type sft of
                      None \<Rightarrow> ''Unknown Fee Type''
                    | Some ft \<Rightarrow> if ft_name ft = [] then ''Unknown Fee Type'' else ft_name ft),
         fd_assigned_amount = assignedAmount sft,
         fd_discount = discount_of sft,
         net_payable = netPayableForThisFee sft,
         fd_scheduled_date = scheduled_date_of sft \<rparr>)) l"
  by (induction l arbitrary: acc) (simp_all add: resolver_step_details)

lemma resolve_fees_total:
  "total_assigned_acc (resolve_fees t x) =
     js_sum (map netPayableForThisFee (case x of None \<Rightarrow> [] | Some l \<Rightarrow> l))"
  by (simp add: resolve_fees_def foldl_resolver_total resolver_init_def js_sum_def
      split: option.splits)

lemma resolve_fees_due:
  "due_acc (resolve_fees t x) =
     js_sum (map netPayableForThisFee
       (filter (counted_as_due t) (case x of None \<Rightarrow> [] | Some l \<Rightarrow> l)))"
  by (simp add: resolve_fees_def foldl_resolver_due resolver_init_def js_sum_def
      split: option.splits)

lemma resolve_fees_details:
  "map net_payable (details_acc (resolve_fees t x)) =
     map netPayableForThisFee (case x of None \<Rightarrow> [] | Some l \<Rightarrow> l)"
  "map fd_assigned_amount (details_acc (resolve_fees t x)) =
     map assignedAmount (case x of None \<Rightarrow> [] | Some l \<Rightarrow> l)"
  "map fd_discount (details_acc (resolve_fees t x)) =
     map discount_of (case x of None \<Rightarrow> [] | Some l \<Rightarrow> l)"
  by (simp_all add: resolve_fees_def foldl_resolver_details resolver_init_def
      split: option.splits)

text \<open>
  The due total never overtakes the total assigned when the lines that are not due have
  a net payable of at least 0: a due line is added to both, rounding keeps the order,
  and a line that is not due can only raise the total.
\<close>

lemma foldl_resolver_due_le:
  assumes "\<forall>sft\<in>set l. \<not> counted_as_due t sft \<longrightarrow> 0 \<le> netPayableForThisFee sft"
    and "due_acc acc \<le> total_assigned_acc acc"
    and "fl (total_assigned_acc acc) = total_assigned_acc acc"
  shows "due_acc (foldl (resolver_step t) acc l) \<le>
         total_assigned_acc (foldl (resolver_step t) acc l)"
  using assms
proof (induction l arbitrary: acc)
  case Nil
  then show ?case by simp
next
  case (Cons sft l)
  let ?acc = "resolver_step t acc sft"
  have fixed: "fl (total_assigned_acc ?acc) = total_assigned_acc ?acc"
    by (simp add: resolver_step_total js_add_def fl_idem)
  have le: "due_acc ?acc \<le> total_assigned_acc ?acc"
  proof (cases "counted_as_due t sft")
    case True
    have "fl (due_acc acc + netPayableForThisFee sft) \<le>
          fl (total_assigned_acc acc + netPayableForThisFee sft)"
      using Cons.prems(2) by (intro fl_mono) simp
    with True show ?thesis
      by (simp add: resolver_step_total resolver_step_due js_add_def)
  next
    case False
    with Cons.prems(1) have "0 \<le> netPayableForThisFee sft" by simp
    then have "fl (total_assigned_acc acc) \<le>
               fl (total_assigned_acc acc + netPayableForThisFee sft)"
      by (intro fl_mono) simp
    with Cons.prems(2,3) False show ?thesis
      by (simp add: resolver_step_total resolver_step_due js_add_def)
  qed
  have "\<forall>x\<in>set l. \<not> counted_as_due t x \<longrightarrow> 0 \<le> netPayableForThisFee x"
    using Cons.prems(1) by simp
  from Cons.IH [OF this le fixed] show ?case by simp
qed

subsection \<open>Status Classifier\<close>

text \<open>
  Claim C1, as the code has it. For every student whose total paid \<open>P\<close> is not negative
  and every view, the status is given by the rule of the specification with the
  threshold \<open>0.009\<close> (not \<open>0.01\<close>): with the chosen fee total \<open>F \<le> 0.009\<close> it is \<open>paid\<close> when
  \<open>P > 0\<close> and \<open>no_fees_due\<close> when \<open>P = 0\<close>; otherwise \<open>paid\<close> when \<open>P \<ge> F\<close>, \<open>partially_paid\<close>
  when \<open>0 < P < F\<close>, and \<open>unpaid\<close> when \<open>P = 0\<close>.
\<close>

theorem status_rule_threshold:
  assumes "totalPaid s = Some P" and "0 \<le> P"
  shows "getDynamicStatus v s =
           spec_status_rule 0.009
             (if v = FeeView_total then calculated_total_assigned_fees s
              else calculated_due_fees_total s) P"
  using assms by (simp add: getDynamicStatus_cases or_opt_num_zero)

text \<open>
  The scenario of the specification: 1400 assigned, 900 due, 900 paid; partially paid
  in the assigned view and paid in the due view.
\<close>

theorem status_rule_threshold_witness:
  "totalPaid (enrichStudent (todayISO_of sample_now) scenario_student) = Some 900 \<and>
   (0::rat) \<le> 900 \<and>
   calculated_total_assigned_fees (enrichStudent (todayISO_of sample_now) scenario_student) = 1400 \<and>
   calculated_due_fees_total (enrichStudent (todayISO_of sample_now) scenario_student) = 900 \<and>
   getDynamicStatus FeeView_total (enrichStudent (todayISO_of sample_now) scenario_student)
     = Partially_paid \<and>
   getDynamicStatus FeeView_due (enrichStudent (todayISO_of sample_now) scenario_student) = Paid"
proof -
  have p: "totalPaid (enrichStudent (todayISO_of sample_now) scenario_student) = Some 900"
    by (simp add: resolver_defs sample_defs)
  have a: "calculated_total_assigned_fees (enrichStudent (todayISO_of sample_now) scenario_student) = 1400"
    by (simp add: resolver_defs sample_defs)
  have d: "calculated_due_fees_total (enrichStudent (todayISO_of sample_now) scenario_student) = 900"
    by (simp add: resolver_defs sample_defs)
  have z: "(0::rat) \<le> 900" by simp
  show ?thesis
    using status_rule_threshold [OF p z, of FeeView_total]
          status_rule_threshold [OF p z, of FeeView_due]
    by (simp add: p a d spec_status_rule_def)
qed

text \<open>
  With the threshold \<open>0.01\<close> of the claim, a fee total of \<open>5 / 512 = 0.009765625\<close> with
  nothing paid would be \<open>no_fees_due\<close>; the code answers \<open>unpaid\<close>.
\<close>

theorem status_rule_counterexample:
  "calculated_total_assigned_fees (enrichStudent (todayISO_of sample_now) small_fee_student)
     = 5 / 512 \<and>
   totalPaid (enrichStudent (todayISO_of sample_now) small_fee_student) = Some 0 \<and>
   getDynamicStatus FeeView_total (enrichStudent (todayISO_of sample_now) small_fee_student) = Unpaid \<and>
   spec_status_rule 0.01 (5 / 512) 0 = No_fees_due"
proof -
  have p: "totalPaid (enrichStudent (todayISO_of sample_now) small_fee_student) = Some 0"
    by (simp add: resolver_defs sample_defs)
  have a: "calculated_total_assigned_fees (enrichStudent (todayISO_of sample_now) small_fee_student)
           = 5 / 512"
    by (simp add: resolver_defs sample_defs fl_small_fee)
  show ?thesis
    by (simp add: p a getDynamicStatus_cases or_opt_num_zero spec_status_rule_def)
qed

text \<open>
  Claim C3, as the code has it. When the total paid (\<^verbatim>\<open>student.totalPaid || 0\<close>) is 0
  and the total assigned is above the threshold \<open>0.009\<close>, the status in the assigned view
  is \<open>unpaid\<close>.
\<close>

theorem unpaid_above_threshold:
  assumes "or_opt_num (totalPaid s) 0 = 0" and "0.009 < calculated_total_assigned_fees s"
  shows "getDynamicStatus FeeView_total s = Unpaid"
  using assms by (simp add: getDynamicStatus_cases spec_status_rule_def)

theorem unpaid_above_threshold_witness:
  "or_opt_num (totalPaid (enrichStudent (todayISO_of sample_now) small_fee_student)) 0 = 0 \<and>
   0.009 < calculated_total_assigned_fees (enrichStudent (todayISO_of sample_now) small_fee_student) \<and>
   getDynamicStatus FeeView_total (enrichStudent (todayISO_of sample_now) small_fee_student) = Unpaid"
proof -
  have p: "or_opt_num (totalPaid (enrichStudent (todayISO_of sample_now) small_fee_student)) 0 = 0"
    by (simp add: resolver_defs sample_defs)
  have a: "0.009 < calculated_total_assigned_fees (enrichStudent (todayISO_of sample_now) small_fee_student)"
    by (simp add: resolver_defs sample_defs fl_small_fee)
  show ?thesis using unpaid_above_threshold [OF p a] p a by simp
qed

text \<open>
  A fee of 100 with a discount of 99.995 leaves a total assigned of about \<open>0.005\<close>: it is
  strictly positive, nothing is paid, and the status is \<open>no_fees_due\<close>, not \<open>unpaid\<close>.
\<close>

theorem unpaid_counterexample:
  "totalPaid (enrichStudent (todayISO_of sample_now) half_paisa_student) = Some 0 \<and>
   0 < calculated_total_assigned_fees (enrichStudent (todayISO_of sample_now) half_paisa_student) \<and>
   getDynamicStatus FeeView_total (enrichStudent (todayISO_of sample_now) half_paisa_student)
     = No_fees_due"
proof -
  have p: "totalPaid (enrichStudent (todayISO_of sample_now) half_paisa_student) = Some 0"
    by (simp add: resolver_defs sample_defs)
  have a:
    "calculated_total_assigned_fees (enrichStudent (todayISO_of sample_now) half_paisa_student)
       = 43980465111 / 8796093022208"
    by (simp add: resolver_defs sample_defs sample_doubles)
  show ?thesis
    by (simp add: p a getDynamicStatus_cases or_opt_num_zero spec_status_rule_def)
qed

text \<open>
  Claim C10. Whatever the chosen fee total, a student whose total paid is strictly
  positive is never classified \<open>unpaid\<close>; equally, the status \<open>unpaid\<close> only occurs with
  a total paid of 0 or less.
\<close>

theorem paid_never_unpaid:
  "(0 < or_opt_num (totalPaid s) 0 \<longrightarrow> getDynamicStatus v s \<noteq> Unpaid) \<and>
   (getDynamicStatus v s = Unpaid \<longrightarrow> or_opt_num (totalPaid s) 0 \<le> 0)"
  by (simp add: getDynamicStatus_cases spec_status_rule_def)

theorem paid_never_unpaid_witness:
  "0 < or_opt_num (totalPaid (enrichStudent (todayISO_of sample_now) scenario_student)) 0 \<and>
   getDynamicStatus FeeView_total (enrichStudent (todayISO_of sample_now) scenario_student) \<noteq> Unpaid \<and>
   getDynamicStatus FeeView_total (enrichStudent (todayISO_of sample_now) small_fee_student) = Unpaid \<and>
   or_opt_num (totalPaid (enrichStudent (todayISO_of sample_now) small_fee_student)) 0 \<le> 0"
proof -
  have p: "0 < or_opt_num (totalPaid (enrichStudent (todayISO_of sample_now) scenario_student)) 0"
    by (simp add: resolver_defs sample_defs)
  have u: "getDynamicStatus FeeView_total (enrichStudent (todayISO_of sample_now) small_fee_student) = Unpaid"
    by (simp add: getDynamicStatus_def resolver_defs sample_defs fl_small_fee)
  show ?thesis
    using paid_never_unpaid [of "enrichStudent (todayISO_of sample_now) scenario_student" FeeView_total]
          paid_never_unpaid [of "enrichStudent (todayISO_of sample_now) small_fee_student" FeeView_total]
          p u
    by blast
qed

subsection \<open>Fee Assignment Resolver\<close>

text \<open>
  Claim C2, as the code has it. When every line that is not counted as due (its fee
  type is missing, or its scheduled date is after the reference date) has a discount
  no larger than its assigned amount, the total due is at most the total assigned.
\<close>

theorem due_le_assigned:
  assumes "\<forall>sft\<in>set (lines_of s). \<not> counted_as_due todayISO sft \<longrightarrow>
             discount_of sft \<le> assignedAmount sft"
  shows "calculated_due_fees_total (enrichStudent todayISO s) \<le>
         calculated_total_assigned_fees (enrichStudent todayISO s)"
proof -
  have nn: "\<forall>sft\<in>set (lines_of s).
              \<not> counted_as_due todayISO sft \<longrightarrow> 0 \<le> netPayableForThisFee sft"
    using assms by (auto simp: netPayableForThisFee_def js_sub_def intro: fl_nonneg)
  have "due_acc (resolve_fees todayISO (student_fee_types s)) \<le>
        total_assigned_acc (resolve_fees todayISO (student_fee_types s))"
  proof (cases "student_fee_types s")
    case None
    then show ?thesis by (simp add: resolve_fees_def resolver_init_def)
  next
    case (Some l)
    with nn have "\<forall>sft\<in>set l. \<not> counted_as_due todayISO sft \<longrightarrow> 0 \<le> netPayableForThisFee sft"
      by (simp add: lines_of_def)
    then have "due_acc (foldl (resolver_step todayISO) resolver_init l) \<le>
               total_assigned_acc (foldl (resolver_step todayISO) resolver_init l)"
      by (rule foldl_resolver_due_le) (simp_all add: resolver_init_def fl_zero)
    with Some show ?thesis by (simp add: resolve_fees_def)
  qed
  then show ?thesis
    by (simp add: enrichStudent_def Let_def)
qed

theorem due_le_assigned_witness:
  "list_all (\<lambda>sft. counted_as_due (todayISO_of sample_now) sft \<or>
                     discount_of sft \<le> assignedAmount sft) (lines_of scenario_student) \<and>
   calculated_due_fees_total (enrichStudent (todayISO_of sample_now) scenario_student) \<le>
   calculated_total_assigned_fees (enrichStudent (todayISO_of sample_now) scenario_student)"
proof -
  have h: "\<forall>sft\<in>set (lines_of scenario_student).
             \<not> counted_as_due (todayISO_of sample_now) sft \<longrightarrow>
             discount_of sft \<le> assignedAmount sft"
    by (simp add: resolver_defs sample_defs)
  then have "list_all (\<lambda>sft. counted_as_due (todayISO_of sample_now) sft \<or>
                     discount_of sft \<le> assignedAmount sft) (lines_of scenario_student)"
    by (auto simp: list_all_iff)
  then show ?thesis using due_le_assigned [OF h] by simp
qed

text \<open>
  Without that condition the inequality fails: a due fee of 100 and a line not yet
  scheduled with amount 0 and discount 50 give a total assigned of 50 and a total due
  of 100.
\<close>

theorem due_le_assigned_counterexample:
  "calculated_total_assigned_fees (enrichStudent (todayISO_of sample_now) over_discounted_student) = 50 \<and>
   calculated_due_fees_total (enrichStudent (todayISO_of sample_now) over_discounted_student) = 100 \<and>
   \<not> calculated_due_fees_total (enrichStudent (todayISO_of sample_now) over_discounted_student) \<le>
     calculated_total_assigned_fees (enrichStudent (todayISO_of sample_now) over_discounted_student)"
proof -
  have a: "calculated_total_assigned_fees (enrichStudent (todayISO_of sample_now) over_discounted_student) = 50"
    by (simp add: resolver_defs sample_defs)
  have d: "calculated_due_fees_total (enrichStudent (todayISO_of sample_now) over_discounted_student) = 100"
    by (simp add: resolver_defs sample_defs)
  show ?thesis by (simp add: a d)
qed

subsection \<open>Payment Aggregator\<close>

text \<open>
  Claim C6, as the code has it. The total paid is the amounts added from left to right
  in double arithmetic, starting from 0. It is their exact sum whenever no addition
  rounds, in particular for whole-number amounts whose magnitudes add up to at most
  \<open>2 ^ 53\<close>. It is 0 for the empty sequence (and for a missing one), and payments of 500
  and 300 give 800.
\<close>

theorem payments_sum:
  "totalPaid_of (Some ps) = js_sum (map amount_paid ps) \<and>
   (adds_exactly 0 (map amount_paid ps) \<longrightarrow>
      totalPaid_of (Some ps) = sum_list (map amount_paid ps)) \<and>
   (map amount_paid ps = map of_int ns \<and> sum_list (map abs ns) \<le> 2 ^ 53 \<longrightarrow>
      totalPaid_of (Some ps) = of_int (sum_list ns)) \<and>
   totalPaid_of (Some []) = 0 \<and>
   totalPaid_of None = 0 \<and>
   totalPaid (enrichStudent todayISO s) =
     Some (js_sum (map amount_paid (case payments s of None \<Rightarrow> [] | Some l \<Rightarrow> l))) \<and>
   totalPaid_of (Some [payment_of 500, payment_of 300]) = 800"
proof -
  have 1: "totalPaid_of (Some ps) = js_sum (map amount_paid ps)"
    by (simp add: totalPaid_of_js_sum)
  have 2: "adds_exactly 0 (map amount_paid ps) \<longrightarrow>
      totalPaid_of (Some ps) = sum_list (map amount_paid ps)"
    by (simp add: 1 js_sum_exact)
  have 3: "map amount_paid ps = map of_int ns \<and> sum_list (map abs ns) \<le> 2 ^ 53 \<longrightarrow>
      totalPaid_of (Some ps) = of_int (sum_list ns)"
  proof
    assume h: "map amount_paid ps = map of_int ns \<and> sum_list (map abs ns) \<le> 2 ^ 53"
    then have "adds_exactly (of_int 0) (map of_int ns)"
      by (intro adds_exactly_whole) simp
    then have "js_sum (map of_int ns) = sum_list (map of_int ns)"
      by (simp add: js_sum_exact)
    also have "\<dots> = of_int (sum_list ns)"
      by (induction ns) simp_all
    finally show "totalPaid_of (Some ps) = of_int (sum_list ns)"
      using h by (simp add: 1)
  qed
  have 4: "totalPaid_of (Some []) = 0" "totalPaid_of None = 0"
    by (simp_all add: totalPaid_of_js_sum js_sum_def)
  have 5: "totalPaid (enrichStudent todayISO s) =
     Some (js_sum (map amount_paid (case payments s of None \<Rightarrow> [] | Some l \<Rightarrow> l)))"
    by (simp add: enrichStudent_def Let_def totalPaid_of_js_sum)
  have 6: "totalPaid_of (Some [payment_of 500, payment_of 300]) = 800"
    by (simp add: totalPaid_of_js_sum js_sum_def js_add_def payment_of_def)
  from 1 2 3 4 5 6 show ?thesis by blast
qed

theorem payments_sum_witness:
  "adds_exactly 0 (map amount_paid [payment_of 500, payment_of 300]) \<and>
   map amount_paid [payment_of 500, payment_of 300] = map of_int [500, 300] \<and>
   sum_list (map abs [500, 300]) \<le> (2 ^ 53 :: int) \<and>
   totalPaid_of (Some [payment_of 500, payment_of 300]) =
     sum_list (map amount_paid [payment_of 500, payment_of 300]) \<and>
   totalPaid_of (Some [payment_of 500, payment_of 300]) = of_int (sum_list [500, 300])"
proof -
  have a: "adds_exactly 0 (map amount_paid [payment_of 500, payment_of 300])"
    by (simp add: payment_of_def)
  have m: "map amount_paid [payment_of 500, payment_of 300] = map of_int [500, 300]"
    by (simp add: payment_of_def)
  have b: "sum_list (map abs [500, 300]) \<le> (2 ^ 53 :: int)" by simp
  show ?thesis
    using payments_sum [of "[payment_of 500, payment_of 300]" "[500, 300]"] a m b
    by blast
qed

text \<open>
  Payments of 100.10 and 200.20: the code returns \<open>300.29999999999995\<close>, the double below
  the exact sum of the two amounts.
\<close>

theorem payments_sum_counterexample:
  "totalPaid_of (Some [payment_of (fl 100.1), payment_of (fl 200.2)]) =
     1320733367284531 / 4398046511104 \<and>
   sum_list (map amount_paid [payment_of (fl 100.1), payment_of (fl 200.2)]) =
     10565866938276249 / 35184372088832 \<and>
   totalPaid_of (Some [payment_of (fl 100.1), payment_of (fl 200.2)]) \<noteq>
     sum_list (map amount_paid [payment_of (fl 100.1), payment_of (fl 200.2)])"
  by (simp add: totalPaid_of_js_sum js_sum_def js_add_def payment_of_def sample_doubles)

subsection \<open>Lines without fee type\<close>

text \<open>
  Claim C9. A line whose joined fee type is missing is added to the total assigned like
  any other line: when it is reached, the total becomes the total so far plus its net
  payable, and the later lines are added to that. The total due is the same as without
  the line, wherever it stands. Its scheduled date lives in the missing fee type, so no
  date can change this. When no addition rounds, the total assigned with the line is
  the total without it plus its net payable.
\<close>

theorem missing_fee_type_line:
  assumes "fee_type sft = None"
  shows "calculated_total_assigned_fees
           (enrichStudent todayISO \<lparr> payments = ps, student_fee_types = Some (pre @ [sft]) \<rparr>) =
         js_add
           (calculated_total_assigned_fees
              (enrichStudent todayISO \<lparr> payments = ps, student_fee_types = Some pre \<rparr>))
           (js_sub (assignedAmount sft) (discount_of sft)) \<and>
         calculated_total_assigned_fees
           (enrichStudent todayISO \<lparr> payments = ps, student_fee_types = Some (pre @ sft # post) \<rparr>) =
         foldl js_add
           (calculated_total_assigned_fees
              (enrichStudent todayISO \<lparr> payments = ps, student_fee_types = Some (pre @ [sft]) \<rparr>))
           (map (\<lambda>x. js_sub (assignedAmount x) (discount_of x)) post) \<and>
         calculated_due_fees_total
           (enrichStudent todayISO \<lparr> payments = ps, student_fee_types = Some (pre @ sft # post) \<rparr>) =
         calculated_due_fees_total
           (enrichStudent todayISO \<lparr> payments = ps, student_fee_types = Some (pre @ post) \<rparr>) \<and>
         (adds_exactly 0 (map (\<lambda>x. js_sub (assignedAmount x) (discount_of x)) (pre @ sft # post)) \<and>
          adds_exactly 0 (map (\<lambda>x. js_sub (assignedAmount x) (discount_of x)) (pre @ post)) \<longrightarrow>
            calculated_total_assigned_fees
              (enrichStudent todayISO \<lparr> payments = ps, student_fee_types = Some (pre @ sft # post) \<rparr>) =
            calculated_total_assigned_fees
              (enrichStudent todayISO \<lparr> payments = ps, student_fee_types = Some (pre @ post) \<rparr>) +
            js_sub (assignedAmount sft) (discount_of sft))"
proof -
  have net: "netPayableForThisFee = (\<lambda>x. js_sub (assignedAmount x) (discount_of x))"
    by (rule ext) (simp add: netPayableForThisFee_def)
  have nd: "\<not> counted_as_due todayISO sft"
    using assms by (simp add: counted_as_due_def)
  have tot: "calculated_total_assigned_fees
               (enrichStudent todayISO \<lparr> payments = ps, student_fee_types = Some l \<rparr>) =
             js_sum (map (\<lambda>x. js_sub (assignedAmount x) (discount_of x)) l)" for l
    by (simp add: enrichStudent_def Let_def resolve_fees_total net)
  have due: "calculated_due_fees_total
               (enrichStudent todayISO \<lparr> payments = ps, student_fee_types = Some l \<rparr>) =
             js_sum (map (\<lambda>x. js_sub (assignedAmount x) (discount_of x))
               (filter (counted_as_due todayISO) l))" for l
    by (simp add: enrichStudent_def Let_def resolve_fees_due net)
  have 1: "js_sum (map (\<lambda>x. js_sub (assignedAmount x) (discount_of x)) (pre @ [sft])) =
           js_add (js_sum (map (\<lambda>x. js_sub (assignedAmount x) (discount_of x)) pre))
             (js_sub (assignedAmount sft) (discount_of sft))"
    by (simp add: js_sum_def)
  have 2: "js_sum (map (\<lambda>x. js_sub (assignedAmount x) (discount_of x)) (pre @ sft # post)) =
           foldl js_add (js_sum (map (\<lambda>x. js_sub (assignedAmount x) (discount_of x)) (pre @ [sft])))
             (map (\<lambda>x. js_sub (assignedAmount x) (discount_of x)) post)"
    by (simp add: js_sum_def)
  have 3: "filter (counted_as_due todayISO) (pre @ sft # post) =
           filter (counted_as_due todayISO) (pre @ post)"
    using nd by simp
  have 4: "adds_exactly 0 (map (\<lambda>x. js_sub (assignedAmount x) (discount_of x)) (pre @ sft # post)) \<and>
           adds_exactly 0 (map (\<lambda>x. js_sub (assignedAmount x) (discount_of x)) (pre @ post)) \<longrightarrow>
           js_sum (map (\<lambda>x. js_sub (assignedAmount x) (discount_of x)) (pre @ sft # post)) =
           js_sum (map (\<lambda>x. js_sub (assignedAmount x) (discount_of x)) (pre @ post)) +
           js_sub (assignedAmount sft) (discount_of sft)"
    by (auto simp: js_sum_exact)
  from 1 2 3 4 show ?thesis
    by (simp only: tot due) 
qed

theorem missing_fee_type_line_witness:
  "fee_type orphan_line = None \<and>
   calculated_total_assigned_fees
     (enrichStudent (todayISO_of sample_now)
        \<lparr> payments = None, student_fee_types = Some [tuition_line, orphan_line] \<rparr>) = 1100 \<and>
   calculated_total_assigned_fees
     (enrichStudent (todayISO_of sample_now)
        \<lparr> payments = None, student_fee_types = Some [tuition_line, orphan_line, transport_line] \<rparr>)
     = 1600 \<and>
   calculated_due_fees_total
     (enrichStudent (todayISO_of sample_now)
        \<lparr> payments = None, student_fee_types = Some [tuition_line, orphan_line, transport_line] \<rparr>)
     = 900 \<and>
   calculated_total_assigned_fees
     (enrichStudent (todayISO_of sample_now)
        \<lparr> payments = None, student_fee_types = Some [tuition_line, transport_line] \<rparr>) = 1400 \<and>
   adds_exactly 0 (map (\<lambda>x. js_sub (assignedAmount x) (discount_of x))
     [tuition_line, orphan_line, transport_line]) \<and>
   adds_exactly 0 (map (\<lambda>x. js_sub (assignedAmount x) (discount_of x))
     [tuition_line, transport_line])"
proof -
  have h: "fee_type orphan_line = None"
    by (simp add: sample_defs)
  have a: "calculated_total_assigned_fees
     (enrichStudent (todayISO_of sample_now)
        \<lparr> payments = None, student_fee_types = Some ([tuition_line] @ [transport_line]) \<rparr>) = 1400"
    by (simp add: resolver_defs sample_defs)
  have b: "calculated_total_assigned_fees
     (enrichStudent (todayISO_of sample_now)
        \<lparr> payments = None, student_fee_types = Some [tuition_line] \<rparr>) = 900"
    by (simp add: resolver_defs sample_defs)
  have d: "calculated_due_fees_total
     (enrichStudent (todayISO_of sample_now)
        \<lparr> payments = None, student_fee_types = Some ([tuition_line] @ [transport_line]) \<rparr>) = 900"
    by (simp add: resolver_defs sample_defs)
  have n: "js_sub (assignedAmount orphan_line) (discount_of orphan_line) = 200"
    "js_sub (assignedAmount tuition_line) (discount_of tuition_line) = 900"
    "js_sub (assignedAmount transport_line) (discount_of transport_line) = 500"
    by (simp_all add: resolver_defs sample_defs)
  show ?thesis
    using missing_fee_type_line [OF h, of "todayISO_of sample_now" None "[tuition_line]"
            "[transport_line]"] h a b d
    by (simp add: n js_add_def)
qed

subsection \<open>Defaults of missing values\<close>



subsection \<open>Dates as strings\<close>

lemma digit_val_less:
  "is_digit a \<Longrightarrow> is_digit b \<Longrightarrow> (a < b) = (digit_val a < digit_val b)"
  by (auto simp: is_digit_def digit_val_def less_char_def less_eq_char_def)

lemma digit_val_le:
  "is_digit a \<Longrightarrow> is_digit b \<Longrightarrow> (a \<le> b) = (digit_val a \<le> digit_val b)"
  by (auto simp: is_digit_def digit_val_def less_eq_char_def)

lemma digit_val_eq:
  "is_digit a \<Longrightarrow> is_digit b \<Longrightarrow> (a = b) = (digit_val a = digit_val b)"
proof -
  assume a: "is_digit a" and b: "is_digit b"
  have "48 \<le> (of_char a :: nat)" "48 \<le> (of_char b :: nat)"
    using a b by (simp_all add: is_digit_def less_eq_char_def)
  then have "(digit_val a = digit_val b) = ((of_char a :: nat) = of_char b)"
    unfolding digit_val_def by arith
  then show ?thesis by simp
qed

lemma digit_val_bound: "is_digit a \<Longrightarrow> digit_val a < 10"
  by (auto simp: is_digit_def digit_val_def less_eq_char_def)

lemma two_digits_less:
  fixes a b c d :: nat
  assumes "b < 10" "d < 10"
  shows "(10 * a + b < 10 * c + d) = (a < c \<or> a = c \<and> b < d)"
  using assms by arith

lemma two_digits_le:
  fixes a b c d :: nat
  assumes "b < 10" "d < 10"
  shows "(10 * a + b \<le> 10 * c + d) = (a < c \<or> a = c \<and> b \<le> d)"
  using assms by arith

lemma two_digits_eq:
  fixes a b c d :: nat
  assumes "b < 10" "d < 10"
  shows "(10 * a + b = 10 * c + d) = (a = c \<and> b = d)"
proof
  assume "10 * a + b = 10 * c + d"
  then have "10 * a + b \<le> 10 * c + d" "10 * c + d \<le> 10 * a + b"
    by simp_all
  then have "a < c \<or> a = c \<and> b \<le> d" "c < a \<or> c = a \<and> d \<le> b"
    using assms by (simp_all only: two_digits_le)
  then show "a = c \<and> b = d" by auto
next
  assume "a = c \<and> b = d"
  then show "10 * a + b = 10 * c + d" by simp
qed

text \<open>On two dates written \<^verbatim>\<open>YYYY-MM-DD\<close>, the order of the strings is the order of the days.\<close>

lemma iso_date_le_iff:
  assumes "is_iso_date s" and "is_iso_date t"
  shows "(s \<le> t) = calendar_le (calendar_of s) (calendar_of t)"
proof -
  from assms(1) obtain y1 y2 y3 y4 m1 m2 d1 d2 where
    s: "s = [y1, y2, y3, y4, CHR ''-'', m1, m2, CHR ''-'', d1, d2]" and
    ds: "is_digit y1" "is_digit y2" "is_digit y3" "is_digit y4"
        "is_digit m1" "is_digit m2" "is_digit d1" "is_digit d2"
    by (auto elim!: is_iso_date.elims(2))
  from assms(2) obtain z1 z2 z3 z4 n1 n2 e1 e2 where
    t: "t = [z1, z2, z3, z4, CHR ''-'', n1, n2, CHR ''-'', e1, e2]" and
    dt: "is_digit z1" "is_digit z2" "is_digit z3" "is_digit z4"
        "is_digit n1" "is_digit n2" "is_digit e1" "is_digit e2"
    by (auto elim!: is_iso_date.elims(2))
  note bs = ds[THEN digit_val_bound] dt[THEN digit_val_bound]
  have "(s \<le> t) =
     (digit_val y1 < digit_val z1 \<or> digit_val y1 = digit_val z1 \<and>
     (digit_val y2 < digit_val z2 \<or> digit_val y2 = digit_val z2 \<and>
     (digit_val y3 < digit_val z3 \<or> digit_val y3 = digit_val z3 \<and>
     (digit_val y4 < digit_val z4 \<or> digit_val y4 = digit_val z4 \<and>
     (digit_val m1 < digit_val n1 \<or> digit_val m1 = digit_val n1 \<and>
     (digit_val m2 < digit_val n2 \<or> digit_val m2 = digit_val n2 \<and>
     (digit_val d1 < digit_val e1 \<or> digit_val d1 = digit_val e1 \<and>
     (digit_val d2 \<le> digit_val e2))))))))"
    unfolding s t using order.order_iff_strict[of d2 e2]
    by (simp add: digit_val_less[symmetric] digit_val_eq[symmetric] digit_val_le[symmetric] ds dt)
  also have "\<dots> = calendar_le (calendar_of s) (calendar_of t)"
    unfolding s t calendar_of.simps calendar_le.simps
    by (simp only: two_digits_less two_digits_eq two_digits_le bs) blast
  finally show ?thesis .
qed

lemma counted_as_due_calendar:
  assumes "is_iso_date todayISO"
    and "\<And>d. scheduled_date_of sft = Some d \<Longrightarrow> is_iso_date d"
  shows "counted_as_due todayISO sft = (fee_type sft \<noteq> None \<and> spec_is_due todayISO sft)"
proof (cases "fee_type sft")
  case None
  then show ?thesis by (simp add: counted_as_due_def)
next
  case (Some ft)
  show ?thesis
  proof (cases "scheduled_date ft")
    case None
    with Some show ?thesis
      by (simp add: counted_as_due_def spec_is_due_def scheduled_date_of_def truthy_str_def)
  next
    case (Some d) note d = this
    show ?thesis
    proof (cases "d = []")
      case True
      with d \<open>fee_type sft = Some ft\<close> show ?thesis
        by (simp add: counted_as_due_def spec_is_due_def scheduled_date_of_def truthy_str_def)
    next
      case False
      with d \<open>fee_type sft = Some ft\<close> have sd: "scheduled_date_of sft = Some d"
        by (simp add: scheduled_date_of_def truthy_str_def)
      then have "is_iso_date d" by (rule assms(2))
      then have "(d \<le> todayISO) = calendar_le (calendar_of d) (calendar_of todayISO)"
        using assms(1) by (rule iso_date_le_iff)
      with d \<open>fee_type sft = Some ft\<close> False sd show ?thesis
        by (simp add: counted_as_due_def spec_is_due_def)
    qed
  qed
qed

text \<open>
  Claim C4, as the code has it. The net payable of a line is its assigned amount minus
  its discount, not clamped, in double arithmetic. The total assigned is the net
  payables of all lines added from left to right in that arithmetic. When the
  reference date and the scheduled dates are written \<^verbatim>\<open>YYYY-MM-DD\<close>, the total due is the
  same sum over exactly the lines whose fee type is present and whose scheduled date is
  absent or not later than the reference date on the calendar; a line scheduled on the
  reference date itself is due. When no subtraction and no addition rounds, the two
  totals are the exact sums of the specification.
\<close>

theorem resolver_totals_calendar:
  "map net_payable (all_fee_details_for_display (enrichStudent todayISO s)) =
     map (\<lambda>sft. js_sub (assignedAmount sft) (discount_of sft)) (lines_of s) \<and>
   calculated_total_assigned_fees (enrichStudent todayISO s) =
     js_sum (map (\<lambda>sft. js_sub (assignedAmount sft) (discount_of sft)) (lines_of s)) \<and>
   (is_iso_date todayISO \<and>
    (\<forall>sft\<in>set (lines_of s). \<forall>d. scheduled_date_of sft = Some d \<longrightarrow> is_iso_date d) \<longrightarrow>
      calculated_due_fees_total (enrichStudent todayISO s) =
        js_sum (map (\<lambda>sft. js_sub (assignedAmount sft) (discount_of sft))
          (filter (\<lambda>sft. fee_type sft \<noteq> None \<and> spec_is_due todayISO sft) (lines_of s)))) \<and>
   (list_all (\<lambda>sft. fl (spec_net_payable sft) = spec_net_payable sft) (lines_of s) \<and>
    adds_exactly 0 (map spec_net_payable (lines_of s)) \<longrightarrow>
      calculated_total_assigned_fees (enrichStudent todayISO s) =
        spec_totalAssigned (lines_of s)) \<and>
   (is_iso_date todayISO \<and>
    (\<forall>sft\<in>set (lines_of s). \<forall>d. scheduled_date_of sft = Some d \<longrightarrow> is_iso_date d) \<and>
    list_all (\<lambda>sft. fl (spec_net_payable sft) = spec_net_payable sft) (lines_of s) \<and>
    adds_exactly 0 (map spec_net_payable
      (filter (\<lambda>sft. fee_type sft \<noteq> None \<and> spec_is_due todayISO sft) (lines_of s))) \<longrightarrow>
      calculated_due_fees_total (enrichStudent todayISO s) =
        spec_totalDue todayISO (filter (\<lambda>sft. fee_type sft \<noteq> None) (lines_of s)))"
proof -
  let ?net = "\<lambda>sft. js_sub (assignedAmount sft) (discount_of sft)"
  let ?due = "\<lambda>sft. fee_type sft \<noteq> None \<and> spec_is_due todayISO sft"
  have net: "netPayableForThisFee = ?net"
    by (rule ext) (simp add: netPayableForThisFee_def)
  have 1: "map net_payable (all_fee_details_for_display (enrichStudent todayISO s)) =
           map ?net (lines_of s)"
    by (simp add: enrichStudent_def Let_def resolve_fees_details lines_of_def net)
  have 2: "calculated_total_assigned_fees (enrichStudent todayISO s) =
           js_sum (map ?net (lines_of s))"
    by (simp add: enrichStudent_def Let_def resolve_fees_total lines_of_def net)
  have d0: "calculated_due_fees_total (enrichStudent todayISO s) =
            js_sum (map ?net (filter (counted_as_due todayISO) (lines_of s)))"
    by (simp add: enrichStudent_def Let_def resolve_fees_due lines_of_def net)
  have 3: "calculated_due_fees_total (enrichStudent todayISO s) =
           js_sum (map ?net (filter ?due (lines_of s)))"
    if iso: "is_iso_date todayISO"
      "\<forall>sft\<in>set (lines_of s). \<forall>d. scheduled_date_of sft = Some d \<longrightarrow> is_iso_date d"
  proof -
    have "\<forall>sft\<in>set (lines_of s). counted_as_due todayISO sft = ?due sft"
    proof
      fix sft assume "sft \<in> set (lines_of s)"
      with iso(2) have "\<And>d. scheduled_date_of sft = Some d \<Longrightarrow> is_iso_date d"
        by blast
      with iso(1) show "counted_as_due todayISO sft = ?due sft"
        by (rule counted_as_due_calendar)
    qed
    then have "filter (counted_as_due todayISO) (lines_of s) = filter ?due (lines_of s)"
      by (auto intro: filter_cong)
    with d0 show ?thesis by simp
  qed
  have exact: "map ?net l = map spec_net_payable l"
    if "list_all (\<lambda>sft. fl (spec_net_payable sft) = spec_net_payable sft) l" for l
    using that by (induction l) (simp_all add: js_sub_def spec_net_payable_def)
  have 4: "calculated_total_assigned_fees (enrichStudent todayISO s) =
           spec_totalAssigned (lines_of s)"
    if "list_all (\<lambda>sft. fl (spec_net_payable sft) = spec_net_payable sft) (lines_of s)"
      "adds_exactly 0 (map spec_net_payable (lines_of s))"
    using that by (simp add: 2 exact js_sum_exact spec_totalAssigned_def)
  have 5: "calculated_due_fees_total (enrichStudent todayISO s) =
           spec_totalDue todayISO (filter (\<lambda>sft. fee_type sft \<noteq> None) (lines_of s))"
    if iso: "is_iso_date todayISO"
      "\<forall>sft\<in>set (lines_of s). \<forall>d. scheduled_date_of sft = Some d \<longrightarrow> is_iso_date d"
      and ex: "list_all (\<lambda>sft. fl (spec_net_payable sft) = spec_net_payable sft) (lines_of s)"
      "adds_exactly 0 (map spec_net_payable (filter ?due (lines_of s)))"
  proof -
    have "list_all (\<lambda>sft. fl (spec_net_payable sft) = spec_net_payable sft)
            (filter ?due (lines_of s))"
      using ex(1) by (auto simp: list_all_iff)
    then have m: "map ?net (filter ?due (lines_of s)) =
               map spec_net_payable (filter ?due (lines_of s))"
      by (rule exact)
    have "calculated_due_fees_total (enrichStudent todayISO s) =
          js_sum (map ?net (filter ?due (lines_of s)))"
      using iso by (rule 3)
    also have "\<dots> = js_sum (map spec_net_payable (filter ?due (lines_of s)))"
      by (simp only: m)
    also have "\<dots> = sum_list (map spec_net_payable (filter ?due (lines_of s)))"
      using ex(2) by (rule js_sum_exact)
    also have "filter ?due (lines_of s) =
               filter (spec_is_due todayISO) (filter (\<lambda>sft. fee_type sft \<noteq> None) (lines_of s))"
      by (simp add: conj_commute)
    finally show ?thesis by (simp only: spec_totalDue_def)
  qed
  from 1 2 3 4 5 show ?thesis by blast
qed

text \<open>
  Five lines on 1 May 2024: scheduled in April (due), in June (not due), on 1 May
  itself (due), without fee type (never due), without scheduled date (due). All amounts
  are whole numbers, so nothing rounds.
\<close>

theorem resolver_totals_calendar_witness:
  "is_iso_date (todayISO_of sample_now) \<and>
   list_all (\<lambda>sft. case scheduled_date_of sft of None \<Rightarrow> True | Some d \<Rightarrow> is_iso_date d)
     (lines_of calendar_student) \<and>
   list_all (\<lambda>sft. fl (spec_net_payable sft) = spec_net_payable sft)
     (lines_of calendar_student) \<and>
   adds_exactly 0 (map spec_net_payable (lines_of calendar_student)) \<and>
   adds_exactly 0 (map spec_net_payable
     (filter (\<lambda>sft. fee_type sft \<noteq> None \<and> spec_is_due (todayISO_of sample_now) sft)
        (lines_of calendar_student))) \<and>
   map net_payable
     (all_fee_details_for_display (enrichStudent (todayISO_of sample_now) calendar_student)) =
     [900, 500, 300, 200, 50] \<and>
   calculated_total_assigned_fees (enrichStudent (todayISO_of sample_now) calendar_student) = 1950 \<and>
   calculated_due_fees_total (enrichStudent (todayISO_of sample_now) calendar_student) = 1250"
proof -
  have t: "todayISO_of sample_now = ''2024-05-01''"
    by (simp add: todayISO_of_def sample_now_def)
  have h1: "is_iso_date (todayISO_of sample_now)"
    by (simp add: t is_digit_def)
  have ls: "lines_of calendar_student =
              [tuition_line, transport_line, exam_line, orphan_line, library_line]"
    by (simp add: lines_of_def calendar_student_def student_with_def)
  have sd: "scheduled_date_of tuition_line = Some ''2024-04-01''"
    "scheduled_date_of transport_line = Some ''2024-06-01''"
    "scheduled_date_of exam_line = Some ''2024-05-01''"
    "scheduled_date_of orphan_line = None"
    "scheduled_date_of library_line = None"
    by (simp_all add: scheduled_date_of_def truthy_str_def sample_defs)
  have ft: "fee_type tuition_line \<noteq> None" "fee_type transport_line \<noteq> None"
    "fee_type exam_line \<noteq> None" "fee_type orphan_line = None" "fee_type library_line \<noteq> None"
    by (simp_all add: sample_defs)
  have h2: "\<forall>sft\<in>set (lines_of calendar_student).
              \<forall>d. scheduled_date_of sft = Some d \<longrightarrow> is_iso_date d"
    by (simp add: ls sd is_digit_def)
  have h2': "list_all (\<lambda>sft. case scheduled_date_of sft of None \<Rightarrow> True | Some d \<Rightarrow> is_iso_date d)
     (lines_of calendar_student)"
    by (simp add: ls sd is_digit_def)
  have np: "spec_net_payable tuition_line = 900" "spec_net_payable transport_line = 500"
    "spec_net_payable exam_line = 300" "spec_net_payable orphan_line = 200"
    "spec_net_payable library_line = 50"
    by (simp_all add: spec_net_payable_def assignedAmount_def discount_of_def or_opt_num_def
        or_num_def sample_defs)
  have du: "spec_is_due ''2024-05-01'' tuition_line" "\<not> spec_is_due ''2024-05-01'' transport_line"
    "spec_is_due ''2024-05-01'' exam_line" "spec_is_due ''2024-05-01'' library_line"
    by (simp_all add: spec_is_due_def sd digit_val_def)
  have e1: "list_all (\<lambda>sft. fl (spec_net_payable sft) = spec_net_payable sft)
     (lines_of calendar_student)"
    by (simp add: ls np)
  have e2: "adds_exactly 0 (map spec_net_payable (lines_of calendar_student))"
    by (simp add: ls np)
  have e3: "adds_exactly 0 (map spec_net_payable
     (filter (\<lambda>sft. fee_type sft \<noteq> None \<and> spec_is_due (todayISO_of sample_now) sft)
        (lines_of calendar_student)))"
    by (simp add: t ls ft np du)
  have nets: "map (\<lambda>sft. js_sub (assignedAmount sft) (discount_of sft)) (lines_of calendar_student)
              = [900, 500, 300, 200, 50]"
    using np by (simp add: ls js_sub_def spec_net_payable_def)
  note T = resolver_totals_calendar [of "todayISO_of sample_now" calendar_student]
  from T have "map net_payable
     (all_fee_details_for_display (enrichStudent (todayISO_of sample_now) calendar_student)) =
     map (\<lambda>sft. js_sub (assignedAmount sft) (discount_of sft)) (lines_of calendar_student)"
    by blast
  then have A: "map net_payable
     (all_fee_details_for_display (enrichStudent (todayISO_of sample_now) calendar_student)) =
     [900, 500, 300, 200, 50]"
    by (simp only: nets)
  from T e1 e2 have
    "calculated_total_assigned_fees (enrichStudent (todayISO_of sample_now) calendar_student) =
     spec_totalAssigned (lines_of calendar_student)"
    by blast
  then have B:
    "calculated_total_assigned_fees (enrichStudent (todayISO_of sample_now) calendar_student) = 1950"
    by (simp add: ls np spec_totalAssigned_def)
  from T h1 h2 e1 e3 have
    "calculated_due_fees_total (enrichStudent (todayISO_of sample_now) calendar_student) =
     spec_totalDue (todayISO_of sample_now)
       (filter (\<lambda>sft. fee_type sft \<noteq> None) (lines_of calendar_student))"
    by blast
  then have C:
    "calculated_due_fees_total (enrichStudent (todayISO_of sample_now) calendar_student) = 1250"
    by (simp add: t ls ft np du spec_totalDue_def)
  from h1 h2' e1 e2 e3 A B C show ?thesis by blast
qed

text \<open>
  Two inputs on which the rule of the claim and the code differ. A line without fee
  type has no scheduled date, so the rule counts its 200 as due; the code does not. And
  for fees of 100.10 and 200.20 the code's total assigned is \<open>300.29999999999995\<close>, the
  double below the exact sum of the two net payables.
\<close>

theorem due_rule_counterexample:
  "scheduled_date_of orphan_line = None \<and>
   spec_totalDue (todayISO_of sample_now) [orphan_line] = 200 \<and>
   calculated_due_fees_total
     (enrichStudent (todayISO_of sample_now) (student_with [] [orphan_line])) = 0 \<and>
   spec_totalAssigned (lines_of rounding_student) = 10565866938276249 / 35184372088832 \<and>
   calculated_total_assigned_fees (enrichStudent (todayISO_of sample_now) rounding_student) =
     1320733367284531 / 4398046511104"
proof -
  have 1: "scheduled_date_of orphan_line = None"
    "spec_totalDue (todayISO_of sample_now) [orphan_line] = 200"
    "calculated_due_fees_total
       (enrichStudent (todayISO_of sample_now) (student_with [] [orphan_line])) = 0"
    by (simp_all add: spec_totalDue_def spec_is_due_def spec_net_payable_def scheduled_date_of_def
        resolver_defs sample_defs)
  have 2: "spec_totalAssigned (lines_of rounding_student) = 10565866938276249 / 35184372088832"
    by (simp add: spec_totalAssigned_def spec_net_payable_def resolver_defs sample_defs
        sample_doubles)
  have 3: "calculated_total_assigned_fees (enrichStudent (todayISO_of sample_now) rounding_student) =
     1320733367284531 / 4398046511104"
    by (simp add: resolver_defs sample_defs sample_doubles)
  from 1 2 3 show ?thesis by blast
qed

subsection \<open>Recording a payment\<close>

lemma handleSubmitPayment_rejected:
  assumes "amount_rejected env (amountPaid st)"
  shows "\<exists>msg. handleSubmitPayment env st = st\<lparr>toasts := toasts st @ [Toast_error msg]\<rparr>"
proof (cases "selectedStudent st")
  case None
  then show ?thesis by (auto simp: handleSubmitPayment_def)
next
  case (Some stu)
  show ?thesis
  proof (cases "if sli_id stu = [] then None
                else if truthy_str (schoolId st) then schoolId st else None")
    case None
    with Some show ?thesis by (auto simp: handleSubmitPayment_def)
  next
    case (Some school)
    with \<open>selectedStudent st = Some stu\<close> assms show ?thesis
      by (auto simp: handleSubmitPayment_def)
  qed
qed

lemma handleSubmitPayment_inserts:
  assumes "selectedStudent st = Some stu" "sli_id stu \<noteq> []" "schoolId st = Some school"
    "school \<noteq> []" "\<not> amount_rejected env (amountPaid st)"
    "\<And>row. store_reply env row = Inserted"
  shows "\<exists>row. payments_table (handleSubmitPayment env st) = payments_table st @ [row] \<and>
           pi_amount_paid row = parseFloat_of env (amountPaid st) \<and>
           pi_student_id row = sli_id stu \<and> pi_school_id row = school"
proof -
  have "(if sli_id stu = [] then None
         else if truthy_str (schoolId st) then schoolId st else None) = Some school"
    using assms(2,3,4) by (simp add: truthy_str_def)
  then show ?thesis
    using assms(1,5,6) by (simp add: handleSubmitPayment_def Let_def)
qed

lemma sample_page_accepted:
  "handleSubmitPayment sample_env (sample_page ''250.50'') =
     (sample_page ''250.50'')
       \<lparr> payments_table :=
           [\<lparr> pi_student_id = ''stu-1'', pi_school_id = ''sch-1'', pi_amount_paid = Some 250.5,
              pi_date = ''2024-05-01T09:30:00.000Z'', pi_mode_of_payment = ''upi'',
              pi_description = Some ''first term'',
              pi_receipt_number = ''R-1714555800000'' \<rparr>],
         toasts := [Toast_loading ''Recording payment...'',
                    Toast_success ''Payment recorded. Receipt #: R-1714555800000''],
         amountPaid := [], modeOfPayment := ''cash'', description := [],
         manualReceiptNumber := [], isSubmittingPayment := False \<rparr>"
  by (simp add: handleSubmitPayment_def sample_page_def sample_env_def sample_Number_def
      sample_now_def amount_rejected_def truthy_str_def ascii_trim_def ascii_space_def digit_char_def
      Let_def)

lemma sample_page_rejected:
  "a \<in> {[], ''abc'', ''0'', ''-5''} \<Longrightarrow>
   handleSubmitPayment sample_env (sample_page a) =
     (sample_page a)\<lparr>toasts := [Toast_error ''Enter a valid payment amount.'']\<rparr>"
  by (auto simp: handleSubmitPayment_def sample_page_def sample_env_def sample_Number_def
      amount_rejected_def truthy_str_def)

text \<open>
  Claim C8. A submission changes the payment table only when the entered amount is not
  empty and \<^verbatim>\<open>Number\<close> reads it as a number strictly greater than 0. For an empty
  amount, one that is not a number, and one that is zero or negative, the only effect is
  an error toast: the table and every field of the page are as before. And with a
  student of the school selected, a valid amount and a store that accepts the insert,
  exactly one row is added, carrying the amount that \<^verbatim>\<open>parseFloat\<close> reads.
\<close>

theorem payment_amount_guard:
  "(payments_table (handleSubmitPayment env st) \<noteq> payments_table st \<longrightarrow>
      amountPaid st \<noteq> [] \<and> (\<exists>v. Number_of env (amountPaid st) = Some v \<and> 0 < v)) \<and>
   (amountPaid st = [] \<or> Number_of env (amountPaid st) = None \<or>
      (\<exists>v. Number_of env (amountPaid st) = Some v \<and> v \<le> 0) \<longrightarrow>
      (\<exists>msg. handleSubmitPayment env st = st\<lparr>toasts := toasts st @ [Toast_error msg]\<rparr>)) \<and>
   (selectedStudent st = Some stu \<and> sli_id stu \<noteq> [] \<and> schoolId st = Some school \<and>
    school \<noteq> [] \<and> amountPaid st \<noteq> [] \<and> Number_of env (amountPaid st) = Some v \<and> 0 < v \<and>
    (\<forall>row. store_reply env row = Inserted) \<longrightarrow>
      (\<exists>row. payments_table (handleSubmitPayment env st) = payments_table st @ [row] \<and>
             pi_amount_paid row = parseFloat_of env (amountPaid st)))"
proof -
  have rej: "amount_rejected env (amountPaid st) =
      (amountPaid st = [] \<or> Number_of env (amountPaid st) = None \<or>
       (\<exists>v. Number_of env (amountPaid st) = Some v \<and> v \<le> 0))"
    by (auto simp: amount_rejected_def split: option.splits)
  have 1: "payments_table (handleSubmitPayment env st) \<noteq> payments_table st \<longrightarrow>
      amountPaid st \<noteq> [] \<and> (\<exists>v. Number_of env (amountPaid st) = Some v \<and> 0 < v)"
  proof
    assume ch: "payments_table (handleSubmitPayment env st) \<noteq> payments_table st"
    have "\<not> amount_rejected env (amountPaid st)"
    proof
      assume "amount_rejected env (amountPaid st)"
      then obtain msg where
        "handleSubmitPayment env st = st\<lparr>toasts := toasts st @ [Toast_error msg]\<rparr>"
        using handleSubmitPayment_rejected by blast
      then have "payments_table (handleSubmitPayment env st) = payments_table st" by simp
      with ch show False by simp
    qed
    then show "amountPaid st \<noteq> [] \<and> (\<exists>v. Number_of env (amountPaid st) = Some v \<and> 0 < v)"
      by (auto simp: amount_rejected_def split: option.splits)
  qed
  have 2: "amountPaid st = [] \<or> Number_of env (amountPaid st) = None \<or>
      (\<exists>v. Number_of env (amountPaid st) = Some v \<and> v \<le> 0) \<longrightarrow>
      (\<exists>msg. handleSubmitPayment env st = st\<lparr>toasts := toasts st @ [Toast_error msg]\<rparr>)"
    using handleSubmitPayment_rejected [of env st] by (simp only: rej) blast
  have 3: "selectedStudent st = Some stu \<and> sli_id stu \<noteq> [] \<and> schoolId st = Some school \<and>
    school \<noteq> [] \<and> amountPaid st \<noteq> [] \<and> Number_of env (amountPaid st) = Some v \<and> 0 < v \<and>
    (\<forall>row. store_reply env row = Inserted) \<longrightarrow>
      (\<exists>row. payments_table (handleSubmitPayment env st) = payments_table st @ [row] \<and>
             pi_amount_paid row = parseFloat_of env (amountPaid st))"
  proof
    assume h: "selectedStudent st = Some stu \<and> sli_id stu \<noteq> [] \<and> schoolId st = Some school \<and>
      school \<noteq> [] \<and> amountPaid st \<noteq> [] \<and> Number_of env (amountPaid st) = Some v \<and> 0 < v \<and>
      (\<forall>row. store_reply env row = Inserted)"
    then have "\<not> amount_rejected env (amountPaid st)"
      by (simp add: amount_rejected_def)
    with h have "\<exists>row. payments_table (handleSubmitPayment env st) = payments_table st @ [row] \<and>
           pi_amount_paid row = parseFloat_of env (amountPaid st) \<and>
           pi_student_id row = sli_id stu \<and> pi_school_id row = school"
      by (intro handleSubmitPayment_inserts) simp_all
    then show "\<exists>row. payments_table (handleSubmitPayment env st) = payments_table st @ [row] \<and>
             pi_amount_paid row = parseFloat_of env (amountPaid st)"
      by blast
  qed
  from 1 2 3 show ?thesis by blast
qed

theorem payment_amount_guard_witness:
  "payments_table (handleSubmitPayment sample_env (sample_page ''250.50'')) =
     [\<lparr> pi_student_id = ''stu-1'', pi_school_id = ''sch-1'', pi_amount_paid = Some 250.5,
        pi_date = ''2024-05-01T09:30:00.000Z'', pi_mode_of_payment = ''upi'',
        pi_description = Some ''first term'', pi_receipt_number = ''R-1714555800000'' \<rparr>] \<and>
   Number_of sample_env ''250.50'' = Some 250.5 \<and>
   Number_of sample_env ''abc'' = None \<and>
   Number_of sample_env ''0'' = Some 0 \<and>
   Number_of sample_env ''-5'' = Some (- 5) \<and>
   handleSubmitPayment sample_env (sample_page []) =
     (sample_page [])\<lparr>toasts := [Toast_error ''Enter a valid payment amount.'']\<rparr> \<and>
   handleSubmitPayment sample_env (sample_page ''abc'') =
     (sample_page ''abc'')\<lparr>toasts := [Toast_error ''Enter a valid payment amount.'']\<rparr> \<and>
   handleSubmitPayment sample_env (sample_page ''0'') =
     (sample_page ''0'')\<lparr>toasts := [Toast_error ''Enter a valid payment amount.'']\<rparr> \<and>
   handleSubmitPayment sample_env (sample_page ''-5'') =
     (sample_page ''-5'')\<lparr>toasts := [Toast_error ''Enter a valid payment amount.'']\<rparr>"
proof -
  have n: "Number_of sample_env ''250.50'' = Some 250.5" "Number_of sample_env ''abc'' = None"
    "Number_of sample_env ''0'' = Some 0" "Number_of sample_env ''-5'' = Some (- 5)"
    by (simp_all add: sample_env_def sample_Number_def)
  have p: "payments_table (sample_page a) = []" for a
    by (simp add: sample_page_def)
  show ?thesis
    using payment_amount_guard [of sample_env "sample_page ''250.50''"]
          payment_amount_guard [of sample_env "sample_page ''abc''"]
    by (simp add: n p sample_page_accepted sample_page_rejected)
qed

subsection \<open>CSV export\<close>

lemma csv_cell_with_comma:
  "CHR '','' \<in> set s \<Longrightarrow> csv_cell (Some s) = Some (CHR 0x22 # s @ [CHR 0x22])"
  by (simp add: csv_cell_def)

lemma csv_cell_without_comma:
  "CHR '','' \<notin> set s \<Longrightarrow> csv_cell (Some s) = Some s"
  by (simp add: csv_cell_def)

lemma js_join_leading_empty:
  "cs \<noteq> [] \<Longrightarrow> js_join sep (Some [] # cs) = sep @ js_join sep cs"
  by (cases cs) (simp_all add: cell_str_def)

lemma handleExport_file:
  assumes "students \<noteq> []"
  shows "handleExport row_of v selectedClassId feeViewType nowISO students =
           Export_file (download_name v selectedClassId feeViewType nowISO)
             (CHR 0x0A # js_join [CHR 0x0A] (map Some (csv_lines (map row_of students))))"
proof -
  have "csv_lines (header # map row_of students) = [] # csv_lines (map row_of students)"
    by (simp add: csv_lines_def header_def)
  moreover have "map Some (csv_lines (map row_of students)) \<noteq> []"
    using assms by (simp add: csv_lines_def)
  ultimately have "csv_of (header # map row_of students) =
      [CHR 0x0A] @ js_join [CHR 0x0A] (map Some (csv_lines (map row_of students)))"
    by (simp add: csv_of_def js_join_leading_empty)
  with assms show ?thesis
    by (simp add: handleExport_def Let_def)
qed

lemma download_name_parts:
  "download_name v selectedClassId feeViewType nowISO =
     ''master-ledger-'' @ view_str v @ ''-'' @
     (if selectedClassId = [] then ''all'' else selectedClassId) @ ''-'' @
     feeView_str feeViewType @ ''-'' @ takeWhile (\<lambda>c. c \<noteq> CHR ''T'') nowISO @ ''.csv''"
  by (simp add: download_name_def todayISO_of_def)

text \<open>
  Claim C7. The export is one line per row with the cells joined by commas, a cell with
  a comma is wrapped in double quotes, and the name of the file carries the view, the
  fee view and the day. The header, however, is the empty array, so the first line of
  the file is empty and no column is named: exporting the scenario student gives a file
  that begins with a line break.
\<close>

theorem export_first_line_is_empty:
  "handleExport sample_row View_school [] FeeView_total sample_now
     [enrichStudent (todayISO_of sample_now) scenario_student] =
   Export_file ''master-ledger-school-all-total-2024-05-01.csv''
     (CHR 0x0A # CHR 0x22 # ''Rao, Asha'' @ CHR 0x22 #
      '',Class 5,,1400.00,900.00,500.00,Partially_paid,4/15/2024,900.00,cash,2024,R-1713175200000'')"
  by (simp add: handleExport_file download_name_def view_str_def feeView_str_def todayISO_of_def
      sample_now_def csv_lines_def sample_row_def csv_cell_def cell_str_def)

end
